theory Spec2Isabelle
  imports Complex_Main
begin

section \<open>JavaScript numbers\<close>

text \<open>
  The completion percentage is a JavaScript \<^verbatim>\<open>number\<close>. Division by zero does not raise
  there: it yields an infinity or NaN, and NaN then compares false with everything. The
  model keeps these special values and takes every finite value as an exact rational
  (rounding of doubles is not modelled; signed zeros are not distinguished, the divisors
  of this program being sequence numbers that are never \<^verbatim>\<open>-0\<close>).
\<close>

datatype number = Num rat | PosInf | NegInf | NaN

fun js_div :: "number \<Rightarrow> number \<Rightarrow> number" where
  "js_div (Num x) (Num y) =
     (if y \<noteq> 0 then Num (x / y)
      else if 0 < x then PosInf else if x < 0 then NegInf else NaN)"
| "js_div (Num x) PosInf = Num 0"
| "js_div (Num x) NegInf = Num 0"
| "js_div PosInf (Num y) = (if 0 \<le> y then PosInf else NegInf)"
| "js_div NegInf (Num y) = (if 0 \<le> y then NegInf else PosInf)"
| "js_div _ _ = NaN"

fun js_mul :: "number \<Rightarrow> number \<Rightarrow> number" where
  "js_mul (Num x) (Num y) = Num (x * y)"
| "js_mul PosInf (Num y) = (if 0 < y then PosInf else if y < 0 then NegInf else NaN)"
| "js_mul NegInf (Num y) = (if 0 < y then NegInf else if y < 0 then PosInf else NaN)"
| "js_mul (Num x) PosInf = (if 0 < x then PosInf else if x < 0 then NegInf else NaN)"
| "js_mul (Num x) NegInf = (if 0 < x then NegInf else if x < 0 then PosInf else NaN)"
| "js_mul PosInf PosInf = PosInf"
| "js_mul NegInf NegInf = PosInf"
| "js_mul PosInf NegInf = NegInf"
| "js_mul NegInf PosInf = NegInf"
| "js_mul _ _ = NaN"

fun js_add :: "number \<Rightarrow> number \<Rightarrow> number" where
  "js_add (Num x) (Num y) = Num (x + y)"
| "js_add PosInf (Num y) = PosInf"
| "js_add (Num x) PosInf = PosInf"
| "js_add NegInf (Num y) = NegInf"
| "js_add (Num x) NegInf = NegInf"
| "js_add PosInf PosInf = PosInf"
| "js_add NegInf NegInf = NegInf"
| "js_add _ _ = NaN"

text \<open>\<^verbatim>\<open>a > b\<close> and \<^verbatim>\<open>a < b\<close>: false as soon as one side is NaN.\<close>

fun js_gt :: "number \<Rightarrow> number \<Rightarrow> bool" where
  "js_gt (Num x) (Num y) = (y < x)"
| "js_gt PosInf (Num y) = True"
| "js_gt PosInf NegInf = True"
| "js_gt (Num x) NegInf = True"
| "js_gt _ _ = False"

definition js_lt :: "number \<Rightarrow> number \<Rightarrow> bool" where
  "js_lt a b = js_gt b a"

text \<open>A sequence number or a pointer, read as a number.\<close>

definition js_int :: "int \<Rightarrow> number" where
  "js_int i = Num (of_int i)"

text \<open>
  \<^verbatim>\<open>!v\<close> on the values this service tests. An absent entity (\<^verbatim>\<open>undefined\<close>) is falsy, an
  entity object is truthy, and an array is an object too: it is truthy also when empty.
\<close>

datatype 'a js_value = Undefined | Entity 'a | Array "'a list"

fun js_not :: "'a js_value \<Rightarrow> bool" where
  "js_not Undefined = True"
| "js_not (Entity _) = False"
| "js_not (Array _) = False"

section \<open>The course hierarchy\<close>

text \<open>
  Modelled from the spec: LessonService, PartService and TestService (the hierarchy
  lookup) are not among the sources. A course owns lessons, a lesson owns parts, a part
  owns tests, each unit carrying a sequence number inside its container; sequence numbers
  may have gaps. A lookup by container and sequence number yields the unit or nothing,
  the \<^verbatim>\<open>getMaxValueFor...\<close> functions yield the largest sequence number of a container, an
  integer that is never negative (0 for a container without units). The identifier
  resolved from a missing unit is \<^verbatim>\<open>undefined\<close> (\<open>None\<close>), and nothing is found inside it.
\<close>

record lesson =
  lesson_id :: string
  lesson_course :: string
  lesson_seq :: int

record part =
  part_id :: string
  part_lesson :: string
  part_seq :: int

record test =
  test_id :: string
  test_part :: string
  test_seq :: int

record hierarchy =
  lessons :: "lesson list"
  parts :: "part list"
  tests :: "test list"

definition maxSeq :: "int list \<Rightarrow> int" where
  "maxSeq xs = fold max xs 0"

definition findLessonByCourseIdAndSeqNum :: "hierarchy \<Rightarrow> string \<Rightarrow> int \<Rightarrow> lesson option" where
  "findLessonByCourseIdAndSeqNum h c n =
     find (\<lambda>l. lesson_course l = c \<and> lesson_seq l = n) (lessons h)"

definition getLessonIdByCourseIdAndSeqNum :: "hierarchy \<Rightarrow> string \<Rightarrow> int \<Rightarrow> string option" where
  "getLessonIdByCourseIdAndSeqNum h c n = map_option lesson_id (findLessonByCourseIdAndSeqNum h c n)"

definition findPartByLessonIdAndSeqNum :: "hierarchy \<Rightarrow> string option \<Rightarrow> int \<Rightarrow> part option" where
  "findPartByLessonIdAndSeqNum h lid n =
     (case lid of
        None \<Rightarrow> None
      | Some i \<Rightarrow> find (\<lambda>p. part_lesson p = i \<and> part_seq p = n) (parts h))"

definition getPartIdByLessonIdAndSeqNum :: "hierarchy \<Rightarrow> string option \<Rightarrow> int \<Rightarrow> string option" where
  "getPartIdByLessonIdAndSeqNum h lid n = map_option part_id (findPartByLessonIdAndSeqNum h lid n)"

definition findTestByPartIdAndSeqNum :: "hierarchy \<Rightarrow> string option \<Rightarrow> int \<Rightarrow> test option" where
  "findTestByPartIdAndSeqNum h pid n =
     (case pid of
        None \<Rightarrow> None
      | Some i \<Rightarrow> find (\<lambda>t. test_part t = i \<and> test_seq t = n) (tests h))"

definition getMaxValueForLesson :: "hierarchy \<Rightarrow> string \<Rightarrow> int" where
  "getMaxValueForLesson h c = maxSeq (map lesson_seq (filter (\<lambda>l. lesson_course l = c) (lessons h)))"

definition getMaxValueForPart :: "hierarchy \<Rightarrow> string option \<Rightarrow> int" where
  "getMaxValueForPart h lid =
     (case lid of
        None \<Rightarrow> 0
      | Some i \<Rightarrow> maxSeq (map part_seq (filter (\<lambda>p. part_lesson p = i) (parts h))))"

definition getMaxValueForTest :: "hierarchy \<Rightarrow> string option \<Rightarrow> int" where
  "getMaxValueForTest h pid =
     (case pid of
        None \<Rightarrow> 0
      | Some i \<Rightarrow> maxSeq (map test_seq (filter (\<lambda>t. test_part t = i) (tests h))))"

section \<open>Enrollments and their store\<close>

text \<open>
  Modelled from the spec: the declarations of the entity CourseTaken, of its status
  enum and of AttendAClassDTO are not among the sources. The fields are the ones the
  service reads and writes; users and courses are identified by their ids, dates are
  instants of a clock, and a completion date that is not set is \<open>None\<close>.
\<close>

datatype CourseTakenStatusEnum = TAKEN | COMPLETED

record CourseTaken =
  user :: string
  course :: string
  currentLesson :: int
  currentPart :: int
  currentTest :: int
  status :: CourseTakenStatusEnum
  completition :: number
  courseStartDate :: nat
  courseCompleteDate :: "nat option"

record AttendAClassDTO =
  dto_user :: string
  dto_course :: string
  dto_currentLesson :: "lesson option"
  dto_currentPart :: "part option"
  dto_currentTest :: "test option"
  dto_completition :: number
  dto_status :: CourseTakenStatusEnum

text \<open>
  Modelled from the spec: CourseTakenUpdateDTO and CourseTakenMapper are not among the
  sources. An update carries the fields to overwrite (the spec's partial fields), which
  are the progress attributes and never the key or the start date; the mapper copies
  fields. A new entity starts with completion 0 and no completion date.
\<close>

record CourseTakenUpdateDTO =
  upd_currentLesson :: "int option"
  upd_currentPart :: "int option"
  upd_currentTest :: "int option"
  upd_status :: "CourseTakenStatusEnum option"
  upd_completition :: "number option"
  upd_courseCompleteDate :: "nat option"

definition toUpdateDto :: "CourseTaken \<Rightarrow> CourseTakenUpdateDTO" where
  "toUpdateDto e =
     \<lparr>upd_currentLesson = Some (currentLesson e), upd_currentPart = Some (currentPart e),
      upd_currentTest = Some (currentTest e), upd_status = Some (status e),
      upd_completition = Some (completition e),
      upd_courseCompleteDate = courseCompleteDate e\<rparr>"

text \<open>The object spread \<^verbatim>\<open>{...courseTaken, ...courseTakenUpdatedInfo}\<close>.\<close>

definition spread :: "CourseTaken \<Rightarrow> CourseTakenUpdateDTO \<Rightarrow> CourseTaken" where
  "spread e d =
     e\<lparr>currentLesson := (case upd_currentLesson d of None \<Rightarrow> currentLesson e | Some v \<Rightarrow> v),
       currentPart := (case upd_currentPart d of None \<Rightarrow> currentPart e | Some v \<Rightarrow> v),
       currentTest := (case upd_currentTest d of None \<Rightarrow> currentTest e | Some v \<Rightarrow> v),
       status := (case upd_status d of None \<Rightarrow> status e | Some v \<Rightarrow> v),
       completition := (case upd_completition d of None \<Rightarrow> completition e | Some v \<Rightarrow> v),
       courseCompleteDate :=
         (case upd_courseCompleteDate d of None \<Rightarrow> courseCompleteDate e | Some v \<Rightarrow> Some v)\<rparr>"

definition toEntity :: "string \<Rightarrow> string \<Rightarrow> CourseTaken" where
  "toEntity u c =
     \<lparr>user = u, course = c, currentLesson = 0, currentPart = 0, currentTest = 0,
      status = TAKEN, completition = Num 0, courseStartDate = 0, courseCompleteDate = None\<rparr>"

text \<open>
  Modelled from the spec: CourseTakenRepository is not among the sources. The store holds
  the enrollment records, keyed by (user, course): saving a record replaces the one with
  its key or adds it, the listings return a sequence.
\<close>

type_synonym store = "CourseTaken list"

definition has_key :: "string \<Rightarrow> string \<Rightarrow> CourseTaken \<Rightarrow> bool" where
  "has_key u c e = (user e = u \<and> course e = c)"

definition repository_findOne :: "store \<Rightarrow> string \<Rightarrow> string \<Rightarrow> CourseTaken option" where
  "repository_findOne s u c = find (has_key u c) s"

definition repository_findByUserIdAndCourseId :: "store \<Rightarrow> string \<Rightarrow> string \<Rightarrow> CourseTaken option" where
  "repository_findByUserIdAndCourseId s u c = find (has_key u c) s"

fun repository_save :: "store \<Rightarrow> CourseTaken \<Rightarrow> store" where
  "repository_save [] e = [e]"
| "repository_save (x # xs) e =
     (if has_key (user e) (course e) x then e # xs else x # repository_save xs e)"

definition repository_delete :: "store \<Rightarrow> string \<Rightarrow> string \<Rightarrow> store" where
  "repository_delete s u c = filter (\<lambda>e. \<not> has_key u c e) s"

definition repository_findByUserId :: "store \<Rightarrow> string \<Rightarrow> CourseTaken list" where
  "repository_findByUserId s u = filter (\<lambda>e. user e = u) s"

definition repository_findByCourseId :: "store \<Rightarrow> string \<Rightarrow> CourseTaken list" where
  "repository_findByCourseId s c = filter (\<lambda>e. course e = c) s"

section \<open>CourseTakenService\<close>

datatype error = ConflictException | NotFoundException | TypeError

text \<open>
  Every operation takes the store and returns its result with the store it leaves; a
  thrown exception is the \<open>Inl\<close> result. \<^verbatim>\<open>Date.now()\<close> is the argument \<open>now\<close> of the
  operation that reads the clock.
\<close>

definition findByUserIdAndCourseId :: "store \<Rightarrow> string \<Rightarrow> string \<Rightarrow> error + CourseTaken" where
  "findByUserIdAndCourseId s u c =
     (case repository_findOne s u c of
        None \<Rightarrow> Inl NotFoundException
      | Some courseTaken \<Rightarrow> Inr courseTaken)"

definition update :: "store \<Rightarrow> string \<Rightarrow> string \<Rightarrow> CourseTakenUpdateDTO \<Rightarrow> (error + CourseTaken) \<times> store" where
  "update s u c courseTakenUpdatedInfo =
     (case findByUserIdAndCourseId s u c of
        Inl e \<Rightarrow> (Inl e, s)
      | Inr courseTaken \<Rightarrow>
          (let saved = spread courseTaken courseTakenUpdatedInfo
           in (Inr saved, repository_save s saved)))"

definition getAllByUserId :: "store \<Rightarrow> string \<Rightarrow> error + CourseTaken list" where
  "getAllByUserId s u =
     (let courseTaken = repository_findByUserId s u
      in if js_not (Array courseTaken) then Inl NotFoundException else Inr courseTaken)"

definition getAllByCourseId :: "store \<Rightarrow> string \<Rightarrow> error + CourseTaken list" where
  "getAllByCourseId s c =
     (let courseTaken = repository_findByCourseId s c
      in if js_not (Array courseTaken) then Inl NotFoundException else Inr courseTaken)"

definition prepareAttendAClassDTO ::
  "CourseTaken \<Rightarrow> string \<Rightarrow> lesson option \<Rightarrow> part option \<Rightarrow> test option \<Rightarrow> AttendAClassDTO" where
  "prepareAttendAClassDTO courseTaken c curLesson curPart curTest =
     \<lparr>dto_user = user courseTaken, dto_course = c, dto_currentLesson = curLesson,
      dto_currentPart = curPart, dto_currentTest = curTest,
      dto_completition = completition courseTaken, dto_status = status courseTaken\<rparr>"

definition prepareCourseTakenUpdatedInfo ::
  "nat \<Rightarrow> CourseTaken \<Rightarrow> test option \<Rightarrow> part option \<Rightarrow> lesson option \<Rightarrow> CourseTaken" where
  "prepareCourseTakenUpdatedInfo now courseTaken nextTest nextPart nextLesson =
     (if nextTest \<noteq> None then courseTaken\<lparr>currentTest := currentTest courseTaken + 1\<rparr>
      else if nextPart \<noteq> None then
        courseTaken\<lparr>currentTest := 1, currentPart := currentPart courseTaken + 1\<rparr>
      else if nextLesson \<noteq> None then
        courseTaken\<lparr>currentTest := 1, currentPart := 1,
          currentLesson := currentLesson courseTaken + 1\<rparr>
      else courseTaken\<lparr>status := COMPLETED, courseCompleteDate := Some now\<rparr>)"

definition calculateCompletition ::
  "hierarchy \<Rightarrow> CourseTaken \<Rightarrow> string option \<Rightarrow> string option \<Rightarrow> number" where
  "calculateCompletition h courseTaken curLesson curPart =
     (let lessonsAmount = getMaxValueForLesson h (course courseTaken);
          partsAmount = getMaxValueForPart h curLesson;
          testsAmount = getMaxValueForTest h curPart;
          completition =
            (if status courseTaken = TAKEN then
               (let percentualPerLesson = js_div (Num 100) (js_int lessonsAmount);
                    percentualPerPart = js_div percentualPerLesson (js_int partsAmount);
                    percentualPerTest = js_div percentualPerPart (js_int testsAmount);
                    completition0 = js_mul percentualPerLesson (js_int (currentLesson courseTaken - 1));
                    completition1 = js_add completition0
                      (js_mul percentualPerPart (js_int (currentPart courseTaken - 1)))
                in js_add completition1
                     (js_mul percentualPerTest (js_int (currentTest courseTaken - 1))))
             else Num 100)
      in if js_gt completition (Num 100) then Num 100 else completition)"

definition updateCourseStatus ::
  "hierarchy \<Rightarrow> nat \<Rightarrow> store \<Rightarrow> string \<Rightarrow> string \<Rightarrow> (error + CourseTaken) \<times> store" where
  "updateCourseStatus h now s u c =
     (case repository_findByUserIdAndCourseId s u c of
        None \<Rightarrow> (Inl TypeError, s)
      | Some courseTaken \<Rightarrow>
          (let currentLessonId = getLessonIdByCourseIdAndSeqNum h c (currentLesson courseTaken);
               currentPartId = getPartIdByLessonIdAndSeqNum h currentLessonId (currentPart courseTaken);
               nextTest = findTestByPartIdAndSeqNum h currentPartId (currentTest courseTaken + 1);
               nextPart = findPartByLessonIdAndSeqNum h currentLessonId (currentPart courseTaken + 1);
               nextLesson = findLessonByCourseIdAndSeqNum h c (currentLesson courseTaken + 1);
               courseTaken1 = prepareCourseTakenUpdatedInfo now courseTaken nextTest nextPart nextLesson;
               courseTaken2 = courseTaken1
                 \<lparr>completition := calculateCompletition h courseTaken1 currentLessonId currentPartId\<rparr>;
               courseTakenUpdatedInfo = toUpdateDto courseTaken2
           in update s (user courseTaken2) (course courseTaken2) courseTakenUpdatedInfo))"

text \<open>
  The position an enrollment points at: the lesson, then the part inside it, then the
  test inside the part, as \<^verbatim>\<open>attendAClass\<close> resolves them; \<open>None\<close> as soon as one is
  missing.
\<close>

definition resolve :: "hierarchy \<Rightarrow> string \<Rightarrow> CourseTaken \<Rightarrow> (lesson \<times> part \<times> test) option" where
  "resolve h c courseTaken =
     (case findLessonByCourseIdAndSeqNum h c (currentLesson courseTaken) of
        None \<Rightarrow> None
      | Some curLesson \<Rightarrow>
          (case findPartByLessonIdAndSeqNum h (Some (lesson_id curLesson)) (currentPart courseTaken) of
             None \<Rightarrow> None
           | Some curPart \<Rightarrow>
               (case findTestByPartIdAndSeqNum h (Some (part_id curPart)) (currentTest courseTaken) of
                  None \<Rightarrow> None
                | Some curTest \<Rightarrow> Some (curLesson, curPart, curTest))))"

section \<open>One step, and why the recursion of attendAClass ends\<close>

text \<open>
  One step of \<^verbatim>\<open>updateCourseStatus\<close> on the enrollment \<open>e\<close> of course \<open>c\<close>: the record the
  step stores (see \<open>updateCourseStatus_eq\<close>).
\<close>

definition advance :: "hierarchy \<Rightarrow> nat \<Rightarrow> string \<Rightarrow> CourseTaken \<Rightarrow> CourseTaken" where
  "advance h now c e =
     (let currentLessonId = getLessonIdByCourseIdAndSeqNum h c (currentLesson e);
          currentPartId = getPartIdByLessonIdAndSeqNum h currentLessonId (currentPart e);
          e1 = prepareCourseTakenUpdatedInfo now e
                 (findTestByPartIdAndSeqNum h currentPartId (currentTest e + 1))
                 (findPartByLessonIdAndSeqNum h currentLessonId (currentPart e + 1))
                 (findLessonByCourseIdAndSeqNum h c (currentLesson e + 1))
      in e1\<lparr>completition := calculateCompletition h e1 currentLessonId currentPartId\<rparr>)"

text \<open>
  The distance of an enrollment's pointers from the largest sequence numbers of the
  catalogue: what the recursion of \<^verbatim>\<open>attendAClass\<close> decreases.
\<close>

definition remaining :: "hierarchy \<Rightarrow> store \<Rightarrow> string \<Rightarrow> string \<Rightarrow> nat \<times> nat \<times> nat" where
  "remaining h s u c =
     (case repository_findOne s u c of
        None \<Rightarrow> (0, 0, 0)
      | Some e \<Rightarrow>
          (nat (maxSeq (map lesson_seq (lessons h)) - currentLesson e),
           nat (maxSeq (map part_seq (parts h)) - currentPart e),
           nat (maxSeq (map test_seq (tests h)) - currentTest e)))"

lemma fold_max_ge_init: "(a::int) \<le> fold max xs a"
  by (induction xs arbitrary: a) (auto intro: order_trans [OF max.cobounded2])

lemma fold_max_ge_elem: "(x::int) \<in> set xs \<Longrightarrow> x \<le> fold max xs a"
proof (induction xs arbitrary: a)
  case Nil
  then show ?case by simp
next
  case (Cons y ys)
  show ?case
  proof (cases "x = y")
    case True
    have "max y a \<le> fold max ys (max y a)" by (rule fold_max_ge_init)
    with True show ?thesis by simp
  next
    case False
    with Cons show ?thesis by simp
  qed
qed

lemma maxSeq_ge: "x \<in> set xs \<Longrightarrow> x \<le> maxSeq xs"
  by (simp add: maxSeq_def fold_max_ge_elem)

lemma maxSeq_nonneg: "0 \<le> maxSeq xs"
  by (simp add: maxSeq_def fold_max_ge_init)

lemma find_SomeD: "find P xs = Some x \<Longrightarrow> P x \<and> x \<in> set xs"
  by (induction xs) (auto split: if_splits)

lemma findOne_key: "repository_findOne s u c = Some e \<Longrightarrow> user e = u \<and> course e = c"
  by (auto simp: repository_findOne_def has_key_def dest: find_SomeD)

lemma findOne_save_same:
  "repository_findOne (repository_save s e) (user e) (course e) = Some e"
  by (induction s) (auto simp: repository_findOne_def has_key_def)

lemma prepare_key:
  "user (prepareCourseTakenUpdatedInfo now e a b d) = user e \<and>
   course (prepareCourseTakenUpdatedInfo now e a b d) = course e \<and>
   courseStartDate (prepareCourseTakenUpdatedInfo now e a b d) = courseStartDate e"
  by (simp add: prepareCourseTakenUpdatedInfo_def)

lemma spread_toUpdateDto:
  "user e' = user e \<Longrightarrow> course e' = course e \<Longrightarrow> courseStartDate e' = courseStartDate e \<Longrightarrow>
   CourseTaken.more e' = CourseTaken.more e \<Longrightarrow>
   (courseCompleteDate e' = None \<Longrightarrow> courseCompleteDate e = None) \<Longrightarrow>
   spread e (toUpdateDto e') = e'"
  by (cases e, cases e') (auto simp: spread_def toUpdateDto_def split: option.splits)

lemma advance_key: "user (advance h now c e) = user e \<and> course (advance h now c e) = course e"
  by (simp add: advance_def Let_def prepareCourseTakenUpdatedInfo_def)

lemma spread_advance: "spread e (toUpdateDto (advance h now c e)) = advance h now c e"
  by (rule spread_toUpdateDto)
     (auto simp: advance_def Let_def prepareCourseTakenUpdatedInfo_def split: if_splits)

lemma updateCourseStatus_eq:
  assumes "repository_findOne s u c = Some e"
  shows "updateCourseStatus h now s u c = (Inr (advance h now c e), repository_save s (advance h now c e))"
proof -
  have k: "user e = u" "course e = c" using assms by (auto dest: findOne_key)
  have f: "repository_findByUserIdAndCourseId s u c = Some e"
    using assms by (simp add: repository_findOne_def repository_findByUserIdAndCourseId_def)
  have "updateCourseStatus h now s u c =
        update s (user (advance h now c e)) (course (advance h now c e)) (toUpdateDto (advance h now c e))"
    by (simp add: updateCourseStatus_def f advance_def Let_def)
  also have "\<dots> = update s u c (toUpdateDto (advance h now c e))"
    by (simp add: advance_key k)
  also have "\<dots> = (Inr (advance h now c e), repository_save s (advance h now c e))"
    by (simp add: update_def findByUserIdAndCourseId_def assms Let_def spread_advance)
  finally show ?thesis .
qed

lemma find_lesson_bound:
  "findLessonByCourseIdAndSeqNum h c n = Some l \<Longrightarrow> n \<le> maxSeq (map lesson_seq (lessons h))"
  by (auto simp: findLessonByCourseIdAndSeqNum_def dest!: find_SomeD intro!: maxSeq_ge)

lemma find_part_bound:
  "findPartByLessonIdAndSeqNum h lid n = Some p \<Longrightarrow> n \<le> maxSeq (map part_seq (parts h))"
  by (auto simp: findPartByLessonIdAndSeqNum_def split: option.splits dest!: find_SomeD intro!: maxSeq_ge)

lemma find_test_bound:
  "findTestByPartIdAndSeqNum h pid n = Some t \<Longrightarrow> n \<le> maxSeq (map test_seq (tests h))"
  by (auto simp: findTestByPartIdAndSeqNum_def split: option.splits dest!: find_SomeD intro!: maxSeq_ge)

lemma advance_decreases:
  assumes f: "repository_findOne s u c = Some e"
    and t: "status (advance h now c e) \<noteq> COMPLETED"
  shows "(remaining h (repository_save s (advance h now c e)) u c, remaining h s u c)
           \<in> less_than <*lex*> less_than <*lex*> less_than"
proof -
  let ?e' = "advance h now c e"
  have k: "user ?e' = u" "course ?e' = c"
    using findOne_key [OF f] by (simp_all add: advance_key)
  have f': "repository_findOne (repository_save s ?e') u c = Some ?e'"
    using findOne_save_same [of s ?e'] by (simp add: k)
  let ?lid = "getLessonIdByCourseIdAndSeqNum h c (currentLesson e)"
  let ?pid = "getPartIdByLessonIdAndSeqNum h ?lid (currentPart e)"
  let ?nt = "findTestByPartIdAndSeqNum h ?pid (currentTest e + 1)"
  let ?np = "findPartByLessonIdAndSeqNum h ?lid (currentPart e + 1)"
  let ?nl = "findLessonByCourseIdAndSeqNum h c (currentLesson e + 1)"
  consider (test) "?nt \<noteq> None"
    | (part) "?nt = None" "?np \<noteq> None"
    | (lesson) "?nt = None" "?np = None" "?nl \<noteq> None"
    | (none) "?nt = None" "?np = None" "?nl = None"
    by blast
  then show ?thesis
  proof cases
    case test
    then obtain x where "?nt = Some x" by blast
    then have "currentTest e + 1 \<le> maxSeq (map test_seq (tests h))" by (rule find_test_bound)
    moreover have "currentLesson ?e' = currentLesson e" "currentPart ?e' = currentPart e"
      "currentTest ?e' = currentTest e + 1"
      using test by (simp_all add: advance_def Let_def prepareCourseTakenUpdatedInfo_def)
    ultimately show ?thesis by (simp add: remaining_def f f')
  next
    case part
    then obtain x where "?np = Some x" by blast
    then have "currentPart e + 1 \<le> maxSeq (map part_seq (parts h))" by (rule find_part_bound)
    moreover have "currentLesson ?e' = currentLesson e" "currentPart ?e' = currentPart e + 1"
      using part by (simp_all add: advance_def Let_def prepareCourseTakenUpdatedInfo_def)
    ultimately show ?thesis by (simp add: remaining_def f f')
  next
    case lesson
    then obtain x where "?nl = Some x" by blast
    then have "currentLesson e + 1 \<le> maxSeq (map lesson_seq (lessons h))" by (rule find_lesson_bound)
    moreover have "currentLesson ?e' = currentLesson e + 1"
      using lesson by (simp_all add: advance_def Let_def prepareCourseTakenUpdatedInfo_def)
    ultimately show ?thesis by (simp add: remaining_def f f')
  next
    case none
    then have "status ?e' = COMPLETED"
      by (simp add: advance_def Let_def prepareCourseTakenUpdatedInfo_def)
    with t show ?thesis by simp
  qed
qed

section \<open>attendAClass, add and delete\<close>

text \<open>
  \<^verbatim>\<open>attendAClass\<close>: the flag \<^verbatim>\<open>invalidOptionFlag\<close> is true exactly when the position does
  not resolve, the only way to reach the code after the nested tests. The recursive call
  reads the store the step has written.
\<close>

function attendAClass ::
  "hierarchy \<Rightarrow> nat \<Rightarrow> store \<Rightarrow> string \<Rightarrow> string \<Rightarrow> (error + AttendAClassDTO) \<times> store" where
  "attendAClass h now s u c =
     (case findByUserIdAndCourseId s u c of
        Inl e \<Rightarrow> (Inl e, s)
      | Inr courseTaken \<Rightarrow>
          (case resolve h c courseTaken of
             Some (curLesson, curPart, curTest) \<Rightarrow>
               (Inr (prepareAttendAClassDTO courseTaken c (Some curLesson) (Some curPart) (Some curTest)), s)
           | None \<Rightarrow>
               (case updateCourseStatus h now s u c of
                  (Inl e, s') \<Rightarrow> (Inl e, s')
                | (Inr courseTaken', s') \<Rightarrow>
                    if status courseTaken' = COMPLETED
                    then (Inr (prepareAttendAClassDTO courseTaken' c None None None), s')
                    else attendAClass h now s' u c)))"
  by pat_completeness auto
termination
proof (relation "inv_image (less_than <*lex*> less_than <*lex*> less_than)
                   (\<lambda>(h, now, s, u, c). remaining h s u c)")
  show "wf (inv_image (less_than <*lex*> less_than <*lex*> less_than)
              (\<lambda>(h, now, s, u, c). remaining h s u c))"
    by (intro wf_inv_image wf_lex_prod wf_less_than)
next
  fix h :: hierarchy and now :: nat and s :: store and u c :: string
    and b :: CourseTaken and x :: "error + CourseTaken" and y :: store and ba :: CourseTaken
  assume a: "findByUserIdAndCourseId s u c = Inr b"
    and r: "(x, y) = updateCourseStatus h now s u c" "x = Inr ba"
    and t: "status ba \<noteq> COMPLETED"
  from a have f: "repository_findOne s u c = Some b"
    by (simp add: findByUserIdAndCourseId_def split: option.splits)
  from r updateCourseStatus_eq [OF f, of h now]
  have "ba = advance h now c b" "y = repository_save s (advance h now c b)" by simp_all
  with advance_decreases [OF f, of h now] t
  show "((h, now, y, u, c), h, now, s, u, c)
          \<in> inv_image (less_than <*lex*> less_than <*lex*> less_than)
               (\<lambda>(h, now, s, u, c). remaining h s u c)"
    by simp
qed

definition add :: "hierarchy \<Rightarrow> nat \<Rightarrow> store \<Rightarrow> string \<Rightarrow> string \<Rightarrow> (error + AttendAClassDTO) \<times> store" where
  "add h now s u c =
     (case repository_findByUserIdAndCourseId s u c of
        Some courseAlreadyTaken \<Rightarrow> (Inl ConflictException, s)
      | None \<Rightarrow>
          (let newCourseTakenEntity = (toEntity u c)
                 \<lparr>currentLesson := 1, currentPart := 1, currentTest := 1, status := TAKEN,
                  courseStartDate := now\<rparr>
           in attendAClass h now (repository_save s newCourseTakenEntity) u c))"

definition delete :: "store \<Rightarrow> string \<Rightarrow> string \<Rightarrow> store" where
  "delete s u c = repository_delete s u c"

section \<open>Notions the properties are stated with\<close>

declare attendAClass.simps [simp del]

text \<open>The three pointers of an enrollment.\<close>

definition pointers :: "CourseTaken \<Rightarrow> int \<times> int \<times> int" where
  "pointers e = (currentLesson e, currentPart e, currentTest e)"

text \<open>The key of an enrollment in the store.\<close>

definition key :: "CourseTaken \<Rightarrow> string \<times> string" where
  "key e = (user e, course e)"

text \<open>The clamp at the end of \<^verbatim>\<open>calculateCompletition\<close>.\<close>

definition clamp100 :: "number \<Rightarrow> number" where
  "clamp100 x = (if js_gt x (Num 100) then Num 100 else x)"

text \<open>
  What \<^verbatim>\<open>calculateCompletition\<close> yields for an enrollment that is still TAKEN after a step:
  a number from 0 up to, but not reaching, 100, or NaN after a division by zero.
\<close>

definition below100 :: "number \<Rightarrow> bool" where
  "below100 x = (case x of Num r \<Rightarrow> 0 \<le> r \<and> r < 100 | NaN \<Rightarrow> True | _ \<Rightarrow> False)"

text \<open>
  The invariant of the enrollments the service itself advances: pointers from 1 on,
  completion exactly 100 once COMPLETED and never 100 while TAKEN.
\<close>

definition sound :: "CourseTaken \<Rightarrow> bool" where
  "sound e =
     (1 \<le> currentLesson e \<and> 1 \<le> currentPart e \<and> 1 \<le> currentTest e \<and>
      (case status e of
         COMPLETED \<Rightarrow> completition e = Num 100
       | TAKEN \<Rightarrow> below100 (completition e)))"

text \<open>
  An enrollment is settled in a catalogue when its position resolves, or when it is
  completed with completion 100: a call of \<^verbatim>\<open>attendAClass\<close> then returns what is stored.
\<close>

definition settled :: "hierarchy \<Rightarrow> string \<Rightarrow> CourseTaken \<Rightarrow> bool" where
  "settled h c e = (resolve h c e \<noteq> None \<or> (status e = COMPLETED \<and> completition e = Num 100))"

text \<open>The results of calling \<^verbatim>\<open>attendAClass\<close> at the given instants, one call after the other.\<close>

fun attendRepeatedly ::
  "hierarchy \<Rightarrow> nat list \<Rightarrow> store \<Rightarrow> string \<Rightarrow> string \<Rightarrow> (error + AttendAClassDTO) list" where
  "attendRepeatedly h [] s u c = []"
| "attendRepeatedly h (now # nows) s u c =
     fst (attendAClass h now s u c) # attendRepeatedly h nows (snd (attendAClass h now s u c)) u c"

text \<open>The stores the public operations of the service produce, starting from the empty one.\<close>

inductive reachable :: "store \<Rightarrow> bool" where
  initial: "reachable []"
| by_add: "reachable s \<Longrightarrow> reachable (snd (add h now s u c))"
| by_attendAClass: "reachable s \<Longrightarrow> reachable (snd (attendAClass h now s u c))"
| by_updateCourseStatus: "reachable s \<Longrightarrow> reachable (snd (updateCourseStatus h now s u c))"
| by_update: "reachable s \<Longrightarrow> reachable (snd (update s u c info))"
| by_delete: "reachable s \<Longrightarrow> reachable (delete s u c)"

text \<open>
  The stores that \<^verbatim>\<open>add\<close>, \<^verbatim>\<open>attendAClass\<close>, \<^verbatim>\<open>updateCourseStatus\<close> and \<^verbatim>\<open>delete\<close> produce from
  the empty one, under any catalogues: enrollments whose progress only the service has
  written (\<^verbatim>\<open>update\<close> can store any caller-supplied value).
\<close>

inductive progressed :: "store \<Rightarrow> bool" where
  nobody: "progressed []"
| enroll: "progressed s \<Longrightarrow> progressed (snd (add h now s u c))"
| attend: "progressed s \<Longrightarrow> progressed (snd (attendAClass h now s u c))"
| advance: "progressed s \<Longrightarrow> progressed (snd (updateCourseStatus h now s u c))"
| unenroll: "progressed s \<Longrightarrow> progressed (delete s u c)"

section \<open>Example catalogues and enrollments\<close>

text \<open>
  A course with two lessons, the first with exactly one part that holds exactly one
  test; the second lesson is empty.
\<close>

definition two_lessons :: hierarchy where
  "two_lessons =
     \<lparr>lessons = [\<lparr>lesson_id = ''l1'', lesson_course = ''c'', lesson_seq = 1\<rparr>,
                 \<lparr>lesson_id = ''l2'', lesson_course = ''c'', lesson_seq = 2\<rparr>],
      parts = [\<lparr>part_id = ''p1'', part_lesson = ''l1'', part_seq = 1\<rparr>],
      tests = [\<lparr>test_id = ''t1'', test_part = ''p1'', test_seq = 1\<rparr>]\<rparr>"

text \<open>
  A course with two lessons, each with two parts, each part with two tests.
\<close>

definition two_by_two :: hierarchy where
  "two_by_two =
     \<lparr>lessons = [\<lparr>lesson_id = ''l1'', lesson_course = ''c'', lesson_seq = 1\<rparr>,
                 \<lparr>lesson_id = ''l2'', lesson_course = ''c'', lesson_seq = 2\<rparr>],
      parts = [\<lparr>part_id = ''p1'', part_lesson = ''l1'', part_seq = 1\<rparr>,
               \<lparr>part_id = ''p2'', part_lesson = ''l1'', part_seq = 2\<rparr>,
               \<lparr>part_id = ''p3'', part_lesson = ''l2'', part_seq = 1\<rparr>,
               \<lparr>part_id = ''p4'', part_lesson = ''l2'', part_seq = 2\<rparr>],
      tests = [\<lparr>test_id = ''t1'', test_part = ''p1'', test_seq = 1\<rparr>,
               \<lparr>test_id = ''t2'', test_part = ''p1'', test_seq = 2\<rparr>,
               \<lparr>test_id = ''t3'', test_part = ''p2'', test_seq = 1\<rparr>,
               \<lparr>test_id = ''t4'', test_part = ''p2'', test_seq = 2\<rparr>,
               \<lparr>test_id = ''t5'', test_part = ''p3'', test_seq = 1\<rparr>,
               \<lparr>test_id = ''t6'', test_part = ''p3'', test_seq = 2\<rparr>,
               \<lparr>test_id = ''t7'', test_part = ''p4'', test_seq = 1\<rparr>,
               \<lparr>test_id = ''t8'', test_part = ''p4'', test_seq = 2\<rparr>]\<rparr>"

text \<open>A course without content.\<close>

definition empty_course :: hierarchy where
  "empty_course = \<lparr>lessons = [], parts = [], tests = []\<rparr>"

text \<open>A course whose only lesson has sequence number 2: the first lesson was removed.\<close>

definition gap_course :: hierarchy where
  "gap_course =
     \<lparr>lessons = [\<lparr>lesson_id = ''l2'', lesson_course = ''c'', lesson_seq = 2\<rparr>],
      parts = [\<lparr>part_id = ''p1'', part_lesson = ''l2'', part_seq = 1\<rparr>],
      tests = [\<lparr>test_id = ''t1'', test_part = ''p1'', test_seq = 1\<rparr>]\<rparr>"

text \<open>A course whose first lesson has no parts; the second has one part with one test.\<close>

definition empty_first_lesson :: hierarchy where
  "empty_first_lesson =
     \<lparr>lessons = [\<lparr>lesson_id = ''l1'', lesson_course = ''c'', lesson_seq = 1\<rparr>,
                 \<lparr>lesson_id = ''l2'', lesson_course = ''c'', lesson_seq = 2\<rparr>],
      parts = [\<lparr>part_id = ''p1'', part_lesson = ''l2'', part_seq = 1\<rparr>],
      tests = [\<lparr>test_id = ''t1'', test_part = ''p1'', test_seq = 1\<rparr>]\<rparr>"

text \<open>A course with two lessons, both without parts.\<close>

definition two_empty_lessons :: hierarchy where
  "two_empty_lessons =
     \<lparr>lessons = [\<lparr>lesson_id = ''l1'', lesson_course = ''c'', lesson_seq = 1\<rparr>,
                 \<lparr>lesson_id = ''l2'', lesson_course = ''c'', lesson_seq = 2\<rparr>],
      parts = [], tests = []\<rparr>"

text \<open>The enrollment of user \<open>u\<close> in course \<open>c\<close>, started at instant 5, at given pointers.\<close>

definition enrolled :: "int \<Rightarrow> int \<Rightarrow> int \<Rightarrow> CourseTaken" where
  "enrolled l p t =
     \<lparr>user = ''u'', course = ''c'', currentLesson = l, currentPart = p, currentTest = t,
      status = TAKEN, completition = Num 0, courseStartDate = 5, courseCompleteDate = None\<rparr>"

text \<open>An update that writes the completion and nothing else.\<close>

definition only_completition :: "number \<Rightarrow> CourseTakenUpdateDTO" where
  "only_completition x =
     \<lparr>upd_currentLesson = None, upd_currentPart = None, upd_currentTest = None,
      upd_status = None, upd_completition = Some x, upd_courseCompleteDate = None\<rparr>"

lemmas lookup_defs =
  findLessonByCourseIdAndSeqNum_def getLessonIdByCourseIdAndSeqNum_def
  findPartByLessonIdAndSeqNum_def getPartIdByLessonIdAndSeqNum_def
  findTestByPartIdAndSeqNum_def getMaxValueForLesson_def getMaxValueForPart_def
  getMaxValueForTest_def maxSeq_def

lemmas store_defs =
  repository_findOne_def repository_findByUserIdAndCourseId_def has_key_def

lemmas service_defs =
  add_def updateCourseStatus_def update_def findByUserIdAndCourseId_def resolve_def
  prepareCourseTakenUpdatedInfo_def calculateCompletition_def prepareAttendAClassDTO_def
  toEntity_def toUpdateDto_def spread_def js_int_def Let_def

section \<open>Unfolding the operations\<close>

lemma findByUserIdAndCourseId_eq_findOne:
  "repository_findByUserIdAndCourseId s u c = repository_findOne s u c"
  by (simp add: repository_findByUserIdAndCourseId_def repository_findOne_def)

lemma attendAClass_missing:
  "repository_findOne s u c = None \<Longrightarrow> attendAClass h now s u c = (Inl NotFoundException, s)"
  by (simp add: attendAClass.simps findByUserIdAndCourseId_def)

lemma attendAClass_resolved:
  "repository_findOne s u c = Some e \<Longrightarrow> resolve h c e = Some (l, p, t) \<Longrightarrow>
   attendAClass h now s u c = (Inr (prepareAttendAClassDTO e c (Some l) (Some p) (Some t)), s)"
  by (simp add: attendAClass.simps findByUserIdAndCourseId_def)

lemma attendAClass_unresolved:
  assumes "repository_findOne s u c = Some e" and "resolve h c e = None"
  shows "attendAClass h now s u c =
           (if status (advance h now c e) = COMPLETED
            then (Inr (prepareAttendAClassDTO (advance h now c e) c None None None),
                  repository_save s (advance h now c e))
            else attendAClass h now (repository_save s (advance h now c e)) u c)"
  by (subst attendAClass.simps)
     (simp add: findByUserIdAndCourseId_def assms updateCourseStatus_eq [OF assms(1)])

section \<open>A position that resolves is read without writing\<close>

text \<open>
  Claim C2. When the stored pointers of an enrollment resolve (the lesson is found in the
  course, the part in that lesson, the test in that part), \<^verbatim>\<open>attendAClass\<close> returns the
  snapshot of that position and leaves the store as it was; a second call, at any later
  instant, returns the same snapshot and the same store.
\<close>

theorem attendAClass_valid_position_idempotent:
  assumes "repository_findOne s u c = Some e"
    and "findLessonByCourseIdAndSeqNum h c (currentLesson e) = Some l"
    and "findPartByLessonIdAndSeqNum h (Some (lesson_id l)) (currentPart e) = Some p"
    and "findTestByPartIdAndSeqNum h (Some (part_id p)) (currentTest e) = Some t"
  shows "attendAClass h now s u c =
           (Inr \<lparr>dto_user = u, dto_course = c, dto_currentLesson = Some l,
                  dto_currentPart = Some p, dto_currentTest = Some t,
                  dto_completition = completition e, dto_status = status e\<rparr>, s) \<and>
         attendAClass h now' (snd (attendAClass h now s u c)) u c = attendAClass h now s u c"
proof -
  have r: "resolve h c e = Some (l, p, t)"
    using assms(2-4) by (simp add: resolve_def)
  have k: "user e = u" using assms(1) by (simp add: findOne_key)
  have first: "attendAClass h n s u c =
      (Inr \<lparr>dto_user = u, dto_course = c, dto_currentLesson = Some l,
             dto_currentPart = Some p, dto_currentTest = Some t,
             dto_completition = completition e, dto_status = status e\<rparr>, s)" for n
    using attendAClass_resolved [OF assms(1) r, of n] by (simp add: prepareAttendAClassDTO_def k)
  show ?thesis
    by (simp add: first)
qed

theorem attendAClass_valid_position_idempotent_witness:
  "attendAClass two_lessons 6 [enrolled 1 1 1] ''u'' ''c'' =
     (Inr \<lparr>dto_user = ''u'', dto_course = ''c'',
            dto_currentLesson = Some \<lparr>lesson_id = ''l1'', lesson_course = ''c'', lesson_seq = 1\<rparr>,
            dto_currentPart = Some \<lparr>part_id = ''p1'', part_lesson = ''l1'', part_seq = 1\<rparr>,
            dto_currentTest = Some \<lparr>test_id = ''t1'', test_part = ''p1'', test_seq = 1\<rparr>,
            dto_completition = Num 0, dto_status = TAKEN\<rparr>, [enrolled 1 1 1]) \<and>
   attendAClass two_lessons 7 (snd (attendAClass two_lessons 6 [enrolled 1 1 1] ''u'' ''c'')) ''u'' ''c'' =
     attendAClass two_lessons 6 [enrolled 1 1 1] ''u'' ''c''"
proof -
  let ?l = "\<lparr>lesson_id = ''l1'', lesson_course = ''c'', lesson_seq = 1\<rparr>"
  let ?p = "\<lparr>part_id = ''p1'', part_lesson = ''l1'', part_seq = 1\<rparr>"
  let ?t = "\<lparr>test_id = ''t1'', test_part = ''p1'', test_seq = 1\<rparr>"
  have h1: "repository_findOne [enrolled 1 1 1] ''u'' ''c'' = Some (enrolled 1 1 1)"
    by (simp add: store_defs enrolled_def)
  have h2: "findLessonByCourseIdAndSeqNum two_lessons ''c'' (currentLesson (enrolled 1 1 1)) = Some ?l"
    by (simp add: lookup_defs two_lessons_def enrolled_def)
  have h3: "findPartByLessonIdAndSeqNum two_lessons (Some (lesson_id ?l)) (currentPart (enrolled 1 1 1)) = Some ?p"
    by (simp add: lookup_defs two_lessons_def enrolled_def)
  have h4: "findTestByPartIdAndSeqNum two_lessons (Some (part_id ?p)) (currentTest (enrolled 1 1 1)) = Some ?t"
    by (simp add: lookup_defs two_lessons_def enrolled_def)
  note w = attendAClass_valid_position_idempotent [OF h1 h2 h3 h4, of 6 7]
  have v: "completition (enrolled 1 1 1) = Num 0" "status (enrolled 1 1 1) = TAKEN"
    by (simp_all add: enrolled_def)
  from w [THEN conjunct1] w [THEN conjunct2] show ?thesis
    unfolding v by (rule conjI)
qed

section \<open>The three-level carry\<close>

text \<open>
  Claim C1. One step of \<^verbatim>\<open>updateCourseStatus\<close> on an enrollment with pointers \<open>(l, p, t)\<close>
  stores a record in which the first level that is not exhausted has moved: the test
  pointer when test \<open>t + 1\<close> exists in the current part, else the part pointer (test back
  to 1) when part \<open>p + 1\<close> exists in the current lesson, else the lesson pointer (part and
  test back to 1) when lesson \<open>l + 1\<close> exists in the course. In the course \<open>two_lessons\<close>
  one step from \<open>(1, 1, 1)\<close> gives \<open>(2, 1, 1)\<close>.
\<close>

theorem updateCourseStatus_carry:
  assumes "repository_findByUserIdAndCourseId s u c = Some e"
    and "pointers e = (l, p, t)"
    and "lessonId = getLessonIdByCourseIdAndSeqNum h c l"
    and "partId = getPartIdByLessonIdAndSeqNum h lessonId p"
  shows "(\<exists>e'. updateCourseStatus h now s u c = (Inr e', repository_save s e') \<and>
            repository_findByUserIdAndCourseId (repository_save s e') u c = Some e' \<and>
            (findTestByPartIdAndSeqNum h partId (t + 1) \<noteq> None \<longrightarrow> pointers e' = (l, p, t + 1)) \<and>
            (findTestByPartIdAndSeqNum h partId (t + 1) = None \<and>
             findPartByLessonIdAndSeqNum h lessonId (p + 1) \<noteq> None \<longrightarrow> pointers e' = (l, p + 1, 1)) \<and>
            (findTestByPartIdAndSeqNum h partId (t + 1) = None \<and>
             findPartByLessonIdAndSeqNum h lessonId (p + 1) = None \<and>
             findLessonByCourseIdAndSeqNum h c (l + 1) \<noteq> None \<longrightarrow> pointers e' = (l + 1, 1, 1))) \<and>
         map pointers (snd (updateCourseStatus two_lessons now [enrolled 1 1 1] ''u'' ''c'')) = [(2, 1, 1)]"
proof -
  let ?e' = "advance h now c e"
  have f: "repository_findOne s u c = Some e"
    using assms(1) by (simp add: findByUserIdAndCourseId_eq_findOne)
  have k: "user ?e' = u" "course ?e' = c"
    using findOne_key [OF f] by (simp_all add: advance_key)
  have ptr: "currentLesson e = l" "currentPart e = p" "currentTest e = t"
    using assms(2) by (simp_all add: pointers_def)
  have 1: "updateCourseStatus h now s u c = (Inr ?e', repository_save s ?e')"
    by (rule updateCourseStatus_eq [OF f])
  have 2: "repository_findByUserIdAndCourseId (repository_save s ?e') u c = Some ?e'"
    using findOne_save_same [of s ?e'] by (simp add: k findByUserIdAndCourseId_eq_findOne)
  have 3: "findTestByPartIdAndSeqNum h partId (t + 1) \<noteq> None \<Longrightarrow> pointers ?e' = (l, p, t + 1)"
    by (simp add: advance_def Let_def prepareCourseTakenUpdatedInfo_def pointers_def ptr assms(3,4))
  have 4: "findTestByPartIdAndSeqNum h partId (t + 1) = None \<Longrightarrow>
           findPartByLessonIdAndSeqNum h lessonId (p + 1) \<noteq> None \<Longrightarrow> pointers ?e' = (l, p + 1, 1)"
    by (simp add: advance_def Let_def prepareCourseTakenUpdatedInfo_def pointers_def ptr assms(3,4))
  have 5: "findTestByPartIdAndSeqNum h partId (t + 1) = None \<Longrightarrow>
           findPartByLessonIdAndSeqNum h lessonId (p + 1) = None \<Longrightarrow>
           findLessonByCourseIdAndSeqNum h c (l + 1) \<noteq> None \<Longrightarrow> pointers ?e' = (l + 1, 1, 1)"
    by (simp add: advance_def Let_def prepareCourseTakenUpdatedInfo_def pointers_def ptr assms(3,4))
  have ex: "map pointers (snd (updateCourseStatus two_lessons now [enrolled 1 1 1] ''u'' ''c'')) = [(2, 1, 1)]"
    by (simp add: updateCourseStatus_def store_defs lookup_defs two_lessons_def enrolled_def
        prepareCourseTakenUpdatedInfo_def calculateCompletition_def js_int_def update_def
        findByUserIdAndCourseId_def toUpdateDto_def spread_def pointers_def Let_def)
  show ?thesis
  proof (intro conjI)
    show "\<exists>e'. updateCourseStatus h now s u c = (Inr e', repository_save s e') \<and>
            repository_findByUserIdAndCourseId (repository_save s e') u c = Some e' \<and>
            (findTestByPartIdAndSeqNum h partId (t + 1) \<noteq> None \<longrightarrow> pointers e' = (l, p, t + 1)) \<and>
            (findTestByPartIdAndSeqNum h partId (t + 1) = None \<and>
             findPartByLessonIdAndSeqNum h lessonId (p + 1) \<noteq> None \<longrightarrow> pointers e' = (l, p + 1, 1)) \<and>
            (findTestByPartIdAndSeqNum h partId (t + 1) = None \<and>
             findPartByLessonIdAndSeqNum h lessonId (p + 1) = None \<and>
             findLessonByCourseIdAndSeqNum h c (l + 1) \<noteq> None \<longrightarrow> pointers e' = (l + 1, 1, 1))"
      using 1 2 3 4 5 by (intro exI [of _ ?e'] conjI impI) (erule conjE | assumption | simp)+
    show "map pointers (snd (updateCourseStatus two_lessons now [enrolled 1 1 1] ''u'' ''c'')) = [(2, 1, 1)]"
      by (rule ex)
  qed
qed

theorem updateCourseStatus_carry_witness:
  "\<exists>e'. updateCourseStatus two_lessons 6 [enrolled 1 1 1] ''u'' ''c'' =
           (Inr e', repository_save [enrolled 1 1 1] e') \<and>
         pointers e' = (2, 1, 1)"
proof -
  have h1: "repository_findByUserIdAndCourseId [enrolled 1 1 1] ''u'' ''c'' = Some (enrolled 1 1 1)"
    by (simp add: store_defs enrolled_def)
  have h2: "pointers (enrolled 1 1 1) = (1, 1, 1)"
    by (simp add: pointers_def enrolled_def)
  have h3: "Some ''l1'' = getLessonIdByCourseIdAndSeqNum two_lessons ''c'' 1"
    by (simp add: lookup_defs two_lessons_def)
  have h4: "Some ''p1'' = getPartIdByLessonIdAndSeqNum two_lessons (Some ''l1'') 1"
    by (simp add: lookup_defs two_lessons_def)
  from updateCourseStatus_carry [OF h1 h2 h3 h4, of 6]
  obtain e' where a: "updateCourseStatus two_lessons 6 [enrolled 1 1 1] ''u'' ''c'' =
      (Inr e', repository_save [enrolled 1 1 1] e')"
    and b: "findTestByPartIdAndSeqNum two_lessons (Some ''p1'') (1 + 1) = None \<and>
            findPartByLessonIdAndSeqNum two_lessons (Some ''l1'') (1 + 1) = None \<and>
            findLessonByCourseIdAndSeqNum two_lessons ''c'' (1 + 1) \<noteq> None \<longrightarrow>
            pointers e' = (1 + 1, 1, 1)"
    by blast
  have "findTestByPartIdAndSeqNum two_lessons (Some ''p1'') (1 + 1) = None \<and>
        findPartByLessonIdAndSeqNum two_lessons (Some ''l1'') (1 + 1) = None \<and>
        findLessonByCourseIdAndSeqNum two_lessons ''c'' (1 + 1) \<noteq> None"
    by (simp add: lookup_defs two_lessons_def)
  with b have "pointers e' = (2, 1, 1)" by simp
  with a show ?thesis by blast
qed

section \<open>The completion percentage\<close>

text \<open>
  Claim C4. With \<open>L\<close>, \<open>P\<close>, \<open>T\<close> the largest sequence numbers of the course, of the lesson
  and of the part handed to \<^verbatim>\<open>calculateCompletition\<close>, the result for an enrollment with
  status TAKEN is \<open>perLesson * (currentLesson - 1) + perPart * (currentPart - 1) + perTest *
  (currentTest - 1)\<close>, clamped above at 100, where \<open>perLesson = 100 / L\<close>, \<open>perPart =
  perLesson / P\<close>, \<open>perTest = perPart / T\<close> in JavaScript's arithmetic. When none of \<open>L\<close>,
  \<open>P\<close>, \<open>T\<close> is zero this is the minimum of 100 and the same expression over the
  rationals. For \<open>L = P = T = 2\<close> and pointers \<open>(2, 2, 2)\<close> it is 87.5. For status COMPLETED it
  is 100 whatever the pointers.
\<close>

theorem calculateCompletition_formula:
  assumes "L = getMaxValueForLesson h (course e)"
    and "P = getMaxValueForPart h lessonId"
    and "T = getMaxValueForTest h partId"
    and "perLesson = js_div (Num 100) (js_int L)"
    and "perPart = js_div perLesson (js_int P)"
    and "perTest = js_div perPart (js_int T)"
  shows "(status e = TAKEN \<longrightarrow>
            calculateCompletition h e lessonId partId =
              clamp100 (js_add (js_add (js_mul perLesson (js_int (currentLesson e - 1)))
                                        (js_mul perPart (js_int (currentPart e - 1))))
                               (js_mul perTest (js_int (currentTest e - 1))))) \<and>
         (status e = TAKEN \<and> L \<noteq> 0 \<and> P \<noteq> 0 \<and> T \<noteq> 0 \<longrightarrow>
            calculateCompletition h e lessonId partId =
              Num (min 100 (100 / of_int L * of_int (currentLesson e - 1) +
                            100 / of_int L / of_int P * of_int (currentPart e - 1) +
                            100 / of_int L / of_int P / of_int T * of_int (currentTest e - 1)))) \<and>
         (status e = TAKEN \<and> L = 2 \<and> P = 2 \<and> T = 2 \<and> pointers e = (2, 2, 2) \<longrightarrow>
            calculateCompletition h e lessonId partId = Num (175 / 2)) \<and>
         (status e = COMPLETED \<longrightarrow> calculateCompletition h e lessonId partId = Num 100)"
proof (intro conjI impI)
  assume "status e = TAKEN"
  then show "calculateCompletition h e lessonId partId =
      clamp100 (js_add (js_add (js_mul perLesson (js_int (currentLesson e - 1)))
                                (js_mul perPart (js_int (currentPart e - 1))))
                       (js_mul perTest (js_int (currentTest e - 1))))"
    by (simp add: calculateCompletition_def clamp100_def Let_def assms)
next
  assume a: "status e = TAKEN \<and> L \<noteq> 0 \<and> P \<noteq> 0 \<and> T \<noteq> 0"
  then show "calculateCompletition h e lessonId partId =
      Num (min 100 (100 / of_int L * of_int (currentLesson e - 1) +
                    100 / of_int L / of_int P * of_int (currentPart e - 1) +
                    100 / of_int L / of_int P / of_int T * of_int (currentTest e - 1)))"
    using assms(1-3) by (simp add: calculateCompletition_def Let_def js_int_def min_def)
next
  assume a: "status e = TAKEN \<and> L = 2 \<and> P = 2 \<and> T = 2 \<and> pointers e = (2, 2, 2)"
  then show "calculateCompletition h e lessonId partId = Num (175 / 2)"
    using assms(1-3) by (simp add: calculateCompletition_def Let_def js_int_def pointers_def)
next
  assume "status e = COMPLETED"
  then show "calculateCompletition h e lessonId partId = Num 100"
    by (simp add: calculateCompletition_def Let_def)
qed

theorem calculateCompletition_formula_witness:
  "calculateCompletition two_by_two (enrolled 2 2 2) (Some ''l2'') (Some ''p4'') = Num (175 / 2) \<and>
   calculateCompletition two_by_two (enrolled 1 2 1) (Some ''l1'') (Some ''p2'') = Num 25 \<and>
   calculateCompletition two_by_two ((enrolled 1 2 1)\<lparr>status := COMPLETED\<rparr>) (Some ''l1'') (Some ''p2'') = Num 100"
proof -
  have c: "getMaxValueForLesson two_by_two ''c'' = 2" "getMaxValueForPart two_by_two (Some ''l2'') = 2"
    "getMaxValueForTest two_by_two (Some ''p4'') = 2" "getMaxValueForPart two_by_two (Some ''l1'') = 2"
    "getMaxValueForTest two_by_two (Some ''p2'') = 2"
    by (simp_all add: lookup_defs two_by_two_def)
  note w = calculateCompletition_formula [OF refl refl refl refl refl refl]
  have 1: "calculateCompletition two_by_two (enrolled 2 2 2) (Some ''l2'') (Some ''p4'') = Num (175 / 2)"
    using w [of "enrolled 2 2 2" two_by_two "Some ''l2''" "Some ''p4''", THEN conjunct2, THEN conjunct2, THEN conjunct1]
    by (simp add: c enrolled_def pointers_def)
  have 2: "calculateCompletition two_by_two (enrolled 1 2 1) (Some ''l1'') (Some ''p2'') = Num 25"
    using w [of "enrolled 1 2 1" two_by_two "Some ''l1''" "Some ''p2''", THEN conjunct2, THEN conjunct1]
    by (simp add: c enrolled_def)
  have 3: "calculateCompletition two_by_two ((enrolled 1 2 1)\<lparr>status := COMPLETED\<rparr>) (Some ''l1'') (Some ''p2'') = Num 100"
    using w [of "(enrolled 1 2 1)\<lparr>status := COMPLETED\<rparr>" two_by_two "Some ''l1''" "Some ''p2''",
        THEN conjunct2, THEN conjunct2, THEN conjunct2]
    by simp
  from 1 2 3 show ?thesis by simp
qed

section \<open>Induction over the recursion of attendAClass\<close>

lemma attendAClass_induct [case_names missing resolved completed step]:
  assumes m: "\<And>h now s u c. repository_findOne s u c = None \<Longrightarrow> Q h now s u c"
    and r: "\<And>h now s u c e l p t.
              repository_findOne s u c = Some e \<Longrightarrow> resolve h c e = Some (l, p, t) \<Longrightarrow> Q h now s u c"
    and d: "\<And>h now s u c e.
              repository_findOne s u c = Some e \<Longrightarrow> resolve h c e = None \<Longrightarrow>
              status (advance h now c e) = COMPLETED \<Longrightarrow> Q h now s u c"
    and st: "\<And>h now s u c e.
              repository_findOne s u c = Some e \<Longrightarrow> resolve h c e = None \<Longrightarrow>
              status (advance h now c e) \<noteq> COMPLETED \<Longrightarrow>
              Q h now (repository_save s (advance h now c e)) u c \<Longrightarrow> Q h now s u c"
  shows "Q h now s u c"
proof (induction h now s u c rule: attendAClass.induct)
  case (1 h now s u c)
  show ?case
  proof (cases "repository_findOne s u c")
    case None
    then show ?thesis by (rule m)
  next
    case (Some e)
    show ?thesis
    proof (cases "resolve h c e")
      case (Some lpt)
      obtain l p t where "lpt = (l, p, t)" by (cases lpt)
      with Some \<open>repository_findOne s u c = Some e\<close> show ?thesis by (auto intro: r)
    next
      case None
      note f = \<open>repository_findOne s u c = Some e\<close>
      show ?thesis
      proof (cases "status (advance h now c e) = COMPLETED")
        case True
        with f None show ?thesis by (rule d)
      next
        case False
        have "Q h now (repository_save s (advance h now c e)) u c"
          by (rule "1.IH" [of e "Inr (advance h now c e)" "repository_save s (advance h now c e)" "advance h now c e"])
             (simp_all add: findByUserIdAndCourseId_def f None updateCourseStatus_eq [OF f] False)
        with f None False show ?thesis by (rule st)
      qed
    qed
  qed
qed

section \<open>One enrollment per user and course\<close>

lemma keys_save:
  "map key (repository_save s e) = (if key e \<in> set (map key s) then map key s else map key s @ [key e])"
  by (induction s) (auto simp: key_def has_key_def)

lemma distinct_keys_save: "distinct (map key s) \<Longrightarrow> distinct (map key (repository_save s e))"
  by (simp add: keys_save)

lemma set_save: "set (repository_save s e) \<subseteq> insert e (set s)"
  by (induction s) auto

lemma distinct_keys_attendAClass:
  "distinct (map key s) \<Longrightarrow> distinct (map key (snd (attendAClass h now s u c)))"
proof (induction h now s u c rule: attendAClass_induct)
  case (missing h now s u c)
  then show ?case by (simp add: attendAClass_missing)
next
  case (resolved h now s u c e l p t)
  then show ?case by (simp add: attendAClass_resolved)
next
  case (completed h now s u c e)
  then show ?case by (simp add: attendAClass_unresolved distinct_keys_save)
next
  case (step h now s u c e)
  then show ?case by (simp add: attendAClass_unresolved distinct_keys_save)
qed

lemma attendAClass_keeps_enrollment:
  "repository_findOne s u c \<noteq> None \<Longrightarrow>
   repository_findOne (snd (attendAClass h now s u c)) u c \<noteq> None"
proof (induction h now s u c rule: attendAClass_induct)
  case (missing h now s u c)
  then show ?case by simp
next
  case (resolved h now s u c e l p t)
  then show ?case by (simp add: attendAClass_resolved)
next
  case (completed h now s u c e)
  have "repository_findOne (repository_save s (advance h now c e)) u c = Some (advance h now c e)"
    using findOne_save_same [of s "advance h now c e"] findOne_key [OF completed(1)]
    by (simp add: advance_key)
  with completed show ?case by (simp add: attendAClass_unresolved)
next
  case (step h now s u c e)
  have "repository_findOne (repository_save s (advance h now c e)) u c = Some (advance h now c e)"
    using findOne_save_same [of s "advance h now c e"] findOne_key [OF step(1)]
    by (simp add: advance_key)
  with step show ?case by (simp add: attendAClass_unresolved)
qed

lemma distinct_keys_add: "distinct (map key s) \<Longrightarrow> distinct (map key (snd (add h now s u c)))"
  by (simp add: add_def distinct_keys_attendAClass distinct_keys_save split: option.splits)

lemma distinct_keys_updateCourseStatus:
  "distinct (map key s) \<Longrightarrow> distinct (map key (snd (updateCourseStatus h now s u c)))"
proof (cases "repository_findOne s u c")
  case None
  assume "distinct (map key s)"
  with None show ?thesis
    by (simp add: updateCourseStatus_def findByUserIdAndCourseId_eq_findOne)
next
  case (Some e)
  assume "distinct (map key s)"
  then show ?thesis by (simp add: updateCourseStatus_eq [OF Some] distinct_keys_save)
qed

lemma distinct_keys_update: "distinct (map key s) \<Longrightarrow> distinct (map key (snd (update s u c info)))"
  by (simp add: update_def findByUserIdAndCourseId_def distinct_keys_save Let_def split: option.splits)

lemma distinct_keys_delete: "distinct (map key s) \<Longrightarrow> distinct (map key (delete s u c))"
  by (simp add: delete_def repository_delete_def distinct_map_filter)

lemma reachable_distinct_keys: "reachable s \<Longrightarrow> distinct (map key s)"
  by (induction rule: reachable.induct)
     (simp_all add: distinct_keys_add distinct_keys_attendAClass distinct_keys_updateCourseStatus
        distinct_keys_update distinct_keys_delete)

lemma distinct_keys_at_most_one: "distinct (map key s) \<Longrightarrow> length (filter (has_key u c) s) \<le> 1"
proof (induction s)
  case Nil
  then show ?case by simp
next
  case (Cons x xs)
  show ?case
  proof (cases "has_key u c x")
    case True
    then have "key x = (u, c)" by (simp add: has_key_def key_def)
    with Cons.prems have "(u, c) \<notin> key ` set xs" by simp
    then have "\<forall>y \<in> set xs. \<not> has_key u c y"
      by (auto simp: has_key_def key_def image_iff)
    then have "filter (has_key u c) xs = []" by (simp add: filter_empty_conv)
    with True show ?thesis by simp
  next
    case False
    with Cons show ?thesis by simp
  qed
qed

lemma add_enrolls: "repository_findOne (snd (add h now s u c)) u c \<noteq> None"
proof (cases "repository_findOne s u c")
  case None
  let ?e = "(toEntity u c)\<lparr>currentLesson := 1, currentPart := 1, currentTest := 1, status := TAKEN,
                  courseStartDate := now\<rparr>"
  have "repository_findOne (repository_save s ?e) u c \<noteq> None"
    using findOne_save_same [of s ?e] by (simp add: toEntity_def)
  then have "repository_findOne (snd (attendAClass h now (repository_save s ?e) u c)) u c \<noteq> None"
    by (rule attendAClass_keeps_enrollment)
  with None show ?thesis
    by (simp add: add_def findByUserIdAndCourseId_eq_findOne)
next
  case (Some e)
  then show ?thesis by (simp add: add_def findByUserIdAndCourseId_eq_findOne)
qed

text \<open>
  Claim C8. When an enrollment of the user in the course exists, \<^verbatim>\<open>add\<close> fails with
  ConflictException and leaves the store as it was. A second \<^verbatim>\<open>add\<close> for the same pair
  right after a first one always fails so, whatever the first did. Every store the
  service's operations reach holds at most one enrollment per user and course.
\<close>

theorem add_at_most_once:
  "(repository_findByUserIdAndCourseId s u c \<noteq> None \<longrightarrow> add h now s u c = (Inl ConflictException, s)) \<and>
   add h' now' (snd (add h now s u c)) u c = (Inl ConflictException, snd (add h now s u c)) \<and>
   (reachable s \<longrightarrow> length (filter (has_key u c) s) \<le> 1)"
proof (intro conjI impI)
  assume "repository_findByUserIdAndCourseId s u c \<noteq> None"
  then show "add h now s u c = (Inl ConflictException, s)"
    by (auto simp: add_def)
next
  have "repository_findByUserIdAndCourseId (snd (add h now s u c)) u c \<noteq> None"
    using add_enrolls [of h now s u c] by (simp add: findByUserIdAndCourseId_eq_findOne)
  then show "add h' now' (snd (add h now s u c)) u c = (Inl ConflictException, snd (add h now s u c))"
    by (auto simp: add_def)
next
  assume "reachable s"
  then show "length (filter (has_key u c) s) \<le> 1"
    by (intro distinct_keys_at_most_one reachable_distinct_keys)
qed

theorem add_at_most_once_witness:
  "add two_lessons 7 [enrolled 1 1 1] ''u'' ''c'' = (Inl ConflictException, [enrolled 1 1 1]) \<and>
   add two_lessons 7 (snd (add two_lessons 5 [] ''u'' ''c'')) ''u'' ''c'' =
     (Inl ConflictException, snd (add two_lessons 5 [] ''u'' ''c'')) \<and>
   length (filter (has_key ''u'' ''c'') (snd (add two_lessons 5 [] ''u'' ''c''))) \<le> 1"
proof -
  have h1: "repository_findByUserIdAndCourseId [enrolled 1 1 1] ''u'' ''c'' \<noteq> None"
    by (simp add: store_defs enrolled_def)
  have h2: "reachable (snd (add two_lessons 5 [] ''u'' ''c''))"
    by (intro reachable.intros)
  note w1 = add_at_most_once [of "[enrolled 1 1 1]" "''u''" "''c''" two_lessons 7]
  note w2 = add_at_most_once [of "[]" "''u''" "''c''" two_lessons 5 two_lessons 7]
  note w3 = add_at_most_once [of "snd (add two_lessons 5 [] ''u'' ''c'')" "''u''" "''c''"]
  from w1 h1 have a: "add two_lessons 7 [enrolled 1 1 1] ''u'' ''c'' = (Inl ConflictException, [enrolled 1 1 1])"
    by blast
  from w3 h2 have c: "length (filter (has_key ''u'' ''c'') (snd (add two_lessons 5 [] ''u'' ''c''))) \<le> 1"
    by blast
  from a w2 [THEN conjunct2, THEN conjunct1] c show ?thesis by (intro conjI)
qed

section \<open>Enrolling in a course without a first lesson\<close>

text \<open>
  Claim C10, as stated, fails: a course can lack a lesson at sequence 1 and have one at
  sequence 2. \<^verbatim>\<open>add\<close> then moves the new enrollment to lesson 2 and returns it with status
  TAKEN and the lesson, part and test it found.
\<close>

theorem add_skips_missing_first_lesson:
  "findLessonByCourseIdAndSeqNum gap_course ''c'' 1 = None \<and>
   repository_findByUserIdAndCourseId [] ''u'' ''c'' = None \<and>
   map_sum id dto_status (fst (add gap_course 5 [] ''u'' ''c'')) = Inr TAKEN \<and>
   map_sum id dto_currentLesson (fst (add gap_course 5 [] ''u'' ''c'')) =
     Inr (Some \<lparr>lesson_id = ''l2'', lesson_course = ''c'', lesson_seq = 2\<rparr>) \<and>
   map (\<lambda>e. (pointers e, status e, courseCompleteDate e)) (snd (add gap_course 5 [] ''u'' ''c'')) =
     [((2, 1, 1), TAKEN, None)]"
  by (simp add: service_defs store_defs lookup_defs attendAClass.simps gap_course_def pointers_def)

text \<open>
  Claim C10, amended. When the user is not enrolled in the course and the course has no
  lesson at sequence 1 and none at sequence 2 (an empty course is one), \<^verbatim>\<open>add\<close> completes
  the enrollment at once: the snapshot has status COMPLETED, completion 100 and no
  lesson, part or test, and the stored enrollment has status COMPLETED and its completion
  date set to the instant of the call.
\<close>

theorem add_completes_without_first_lessons:
  assumes "repository_findByUserIdAndCourseId s u c = None"
    and "findLessonByCourseIdAndSeqNum h c 1 = None"
    and "findLessonByCourseIdAndSeqNum h c 2 = None"
  shows "add h now s u c =
     (Inr \<lparr>dto_user = u, dto_course = c, dto_currentLesson = None, dto_currentPart = None,
            dto_currentTest = None, dto_completition = Num 100, dto_status = COMPLETED\<rparr>,
      repository_save s
        \<lparr>user = u, course = c, currentLesson = 1, currentPart = 1, currentTest = 1,
         status = COMPLETED, completition = Num 100, courseStartDate = now,
         courseCompleteDate = Some now\<rparr>)"
proof -
  let ?e = "\<lparr>user = u, course = c, currentLesson = 1, currentPart = 1, currentTest = 1,
             status = TAKEN, completition = Num 0, courseStartDate = now, courseCompleteDate = None\<rparr>"
  let ?e' = "\<lparr>user = u, course = c, currentLesson = 1, currentPart = 1, currentTest = 1,
         status = COMPLETED, completition = Num 100, courseStartDate = now,
         courseCompleteDate = Some now\<rparr>"
  have a: "add h now s u c = attendAClass h now (repository_save s ?e) u c"
    by (simp add: add_def assms(1) toEntity_def)
  have f: "repository_findOne (repository_save s ?e) u c = Some ?e"
    using findOne_save_same [of s ?e] by simp
  have r: "resolve h c ?e = None"
    by (simp add: resolve_def assms(2))
  have adv: "advance h now c ?e = ?e'"
    by (simp add: advance_def Let_def assms(2,3) getLessonIdByCourseIdAndSeqNum_def
        getPartIdByLessonIdAndSeqNum_def findPartByLessonIdAndSeqNum_def
        findTestByPartIdAndSeqNum_def prepareCourseTakenUpdatedInfo_def calculateCompletition_def)
  have sv: "repository_save (repository_save s ?e) ?e' = repository_save s ?e'"
    by (induction s) (simp_all add: has_key_def)
  show ?thesis
    by (simp add: a attendAClass_unresolved [OF f r] adv sv prepareAttendAClassDTO_def)
qed

theorem add_completes_without_first_lessons_witness:
  "add empty_course 5 [] ''u'' ''c'' =
     (Inr \<lparr>dto_user = ''u'', dto_course = ''c'', dto_currentLesson = None, dto_currentPart = None,
            dto_currentTest = None, dto_completition = Num 100, dto_status = COMPLETED\<rparr>,
      [\<lparr>user = ''u'', course = ''c'', currentLesson = 1, currentPart = 1, currentTest = 1,
        status = COMPLETED, completition = Num 100, courseStartDate = 5,
        courseCompleteDate = Some 5\<rparr>])"
proof -
  have h1: "repository_findByUserIdAndCourseId [] ''u'' ''c'' = None"
    by (simp add: store_defs)
  have h2: "findLessonByCourseIdAndSeqNum empty_course ''c'' 1 = None"
    "findLessonByCourseIdAndSeqNum empty_course ''c'' 2 = None"
    by (simp_all add: lookup_defs empty_course_def)
  from add_completes_without_first_lessons [OF h1 h2, of 5] show ?thesis by simp
qed

section \<open>Where the service departs from its specification\<close>

text \<open>
  Claim C7 (listings fail with NotFoundException when nothing is found) does not hold of
  the code. The repository returns an array, and \<^verbatim>\<open>!courseTaken\<close> is false for every
  array, the empty one too: both listings always succeed, with an empty result when
  nothing is found.
\<close>

theorem listing_of_nothing_succeeds:
  "getAllByUserId s u = Inr (repository_findByUserId s u) \<and>
   getAllByCourseId s c = Inr (repository_findByCourseId s c) \<and>
   getAllByUserId [] ''u'' = Inr [] \<and> getAllByCourseId [] ''c'' = Inr [] \<and>
   getAllByUserId [enrolled 1 1 1] ''v'' = Inr []"
  by (simp add: getAllByUserId_def getAllByCourseId_def repository_findByUserId_def
      repository_findByCourseId_def enrolled_def)

text \<open>
  Claim C3 (the cardinalities are those of the containers the pointers designate after
  the advancement) does not hold of the code. \<^verbatim>\<open>updateCourseStatus\<close> resolves the lesson and
  part identifiers before it advances and hands these to \<^verbatim>\<open>calculateCompletition\<close>. In
  \<open>empty_first_lesson\<close>, the step from \<open>(1, 1, 1)\<close> to \<open>(2, 1, 1)\<close> divides by the number of
  parts of lesson 1, which is 0, and stores NaN; with the containers of the new position
  the result would be 50.
\<close>

theorem completion_uses_containers_before_advancement:
  "map (\<lambda>e. (pointers e, completition e))
     (snd (updateCourseStatus empty_first_lesson 6 [enrolled 1 1 1] ''u'' ''c'')) = [((2, 1, 1), NaN)] \<and>
   calculateCompletition empty_first_lesson (enrolled 2 1 1)
     (getLessonIdByCourseIdAndSeqNum empty_first_lesson ''c'' 1)
     (getPartIdByLessonIdAndSeqNum empty_first_lesson
        (getLessonIdByCourseIdAndSeqNum empty_first_lesson ''c'' 1) 1) = NaN \<and>
   calculateCompletition empty_first_lesson (enrolled 2 1 1)
     (getLessonIdByCourseIdAndSeqNum empty_first_lesson ''c'' 2)
     (getPartIdByLessonIdAndSeqNum empty_first_lesson
        (getLessonIdByCourseIdAndSeqNum empty_first_lesson ''c'' 2) 1) = Num 50"
  by (simp add: service_defs store_defs lookup_defs empty_first_lesson_def enrolled_def pointers_def)

text \<open>
  Claim C6 (the completion date is assigned once) does not hold of the code. An
  enrollment completed in an empty course at instant 5 keeps pointers that do not
  resolve; \<^verbatim>\<open>attendAClass\<close> at instant 9 runs the step again and stores 9 as the completion
  date.
\<close>

theorem completion_date_overwritten:
  "map courseCompleteDate (snd (add empty_course 5 [] ''u'' ''c'')) = [Some 5] \<and>
   map status (snd (add empty_course 5 [] ''u'' ''c'')) = [COMPLETED] \<and>
   map courseCompleteDate
     (snd (attendAClass empty_course 9 (snd (add empty_course 5 [] ''u'' ''c'')) ''u'' ''c'')) = [Some 9]"
  by (simp add: service_defs store_defs lookup_defs attendAClass.simps empty_course_def)

text \<open>
  Claim C9 (the stored completion lies in [0, 100] and no cardinality divided by is
  zero) does not hold of the code. Enrolling in \<open>empty_first_lesson\<close> leaves the
  enrollment at \<open>(2, 1, 1)\<close> with status TAKEN and completion NaN, which the snapshot
  returns; one step of \<^verbatim>\<open>updateCourseStatus\<close> in \<open>two_empty_lessons\<close> divides by the 0 parts
  of lesson 1 and stores NaN as well.
\<close>

theorem completion_not_a_number:
  "map (\<lambda>e. (pointers e, status e, completition e))
     (snd (add empty_first_lesson 5 [] ''u'' ''c'')) = [((2, 1, 1), TAKEN, NaN)] \<and>
   map_sum id dto_completition (fst (add empty_first_lesson 5 [] ''u'' ''c'')) = Inr NaN \<and>
   map (\<lambda>e. (pointers e, status e, completition e))
     (snd (updateCourseStatus two_empty_lessons 6 [enrolled 1 1 1] ''u'' ''c'')) = [((2, 1, 1), TAKEN, NaN)] \<and>
   getMaxValueForPart two_empty_lessons (getLessonIdByCourseIdAndSeqNum two_empty_lessons ''c'' 1) = 0"
  by (simp add: service_defs store_defs lookup_defs attendAClass.simps empty_first_lesson_def
      two_empty_lessons_def enrolled_def pointers_def)

section \<open>Completion and status along repeated calls\<close>

lemma js_add_NaN [simp]: "js_add NaN x = NaN" "js_add x NaN = NaN"
  by (cases x; simp)+

lemma fraction_below_one:
  fixes x y :: rat
  assumes "0 \<le> x" "x < y"
  shows "0 \<le> x / y \<and> x / y < 1"
  using assms by simp

lemma odometer_bound:
  fixes l p t L P T :: int
  assumes "1 \<le> l" "l \<le> L" "1 \<le> p" "p \<le> P" "1 \<le> t" "t \<le> T"
  defines "X \<equiv> (100 / of_int L * of_int (l - 1) + 100 / of_int L / of_int P * of_int (p - 1) +
                 100 / of_int L / of_int P / of_int T * of_int (t - 1) :: rat)"
  shows "0 \<le> X \<and> X < 100"
proof -
  define A :: rat where "A = of_int (t - 1) / of_int T"
  define B :: rat where "B = (of_int (p - 1) + A) / of_int P"
  define C :: rat where "C = (of_int (l - 1) + B) / of_int L"
  have pos: "(0::rat) < of_int L" "(0::rat) < of_int P" "(0::rat) < of_int T"
    using assms by simp_all
  have A: "0 \<le> A \<and> A < 1"
    unfolding A_def using assms by (intro fraction_below_one) simp_all
  have "of_int (p - 1) + A < (of_int p :: rat)" using A by simp
  also have "\<dots> \<le> of_int P" using assms by simp
  finally have B: "0 \<le> B \<and> B < 1"
    unfolding B_def using A assms by (intro fraction_below_one) simp_all
  have "of_int (l - 1) + B < (of_int l :: rat)" using B by simp
  also have "\<dots> \<le> of_int L" using assms by simp
  finally have C: "0 \<le> C \<and> C < 1"
    unfolding C_def using B assms by (intro fraction_below_one) simp_all
  have "X = 100 * C"
    using pos by (simp add: X_def C_def B_def A_def field_simps)
  with C show ?thesis by simp
qed

lemma getMaxValueForPart_nonneg: "0 \<le> getMaxValueForPart h lid"
  by (simp add: getMaxValueForPart_def maxSeq_nonneg split: option.splits)

lemma getMaxValueForTest_nonneg: "0 \<le> getMaxValueForTest h pid"
  by (simp add: getMaxValueForTest_def maxSeq_nonneg split: option.splits)

lemma find_lesson_le_max:
  "findLessonByCourseIdAndSeqNum h c n = Some x \<Longrightarrow> n \<le> getMaxValueForLesson h c"
  by (auto simp: findLessonByCourseIdAndSeqNum_def getMaxValueForLesson_def
      dest!: find_SomeD intro!: maxSeq_ge)

lemma find_part_le_max:
  "findPartByLessonIdAndSeqNum h lid n = Some x \<Longrightarrow> n \<le> getMaxValueForPart h lid"
  by (auto simp: findPartByLessonIdAndSeqNum_def getMaxValueForPart_def
      split: option.splits dest!: find_SomeD intro!: maxSeq_ge)

lemma find_test_le_max:
  "findTestByPartIdAndSeqNum h pid n = Some x \<Longrightarrow> n \<le> getMaxValueForTest h pid"
  by (auto simp: findTestByPartIdAndSeqNum_def getMaxValueForTest_def
      split: option.splits dest!: find_SomeD intro!: maxSeq_ge)

lemma calc_below100:
  assumes tk: "status e = TAKEN"
    and L: "1 \<le> currentLesson e" "currentLesson e \<le> getMaxValueForLesson h (course e)"
    and P0: "getMaxValueForPart h lid = 0 \<Longrightarrow> currentPart e = 1 \<and> currentTest e = 1"
    and P1: "getMaxValueForPart h lid \<noteq> 0 \<Longrightarrow>
               1 \<le> currentPart e \<and> currentPart e \<le> getMaxValueForPart h lid"
    and T0: "getMaxValueForTest h pid = 0 \<Longrightarrow> currentTest e = 1"
    and T1: "getMaxValueForTest h pid \<noteq> 0 \<Longrightarrow>
               1 \<le> currentTest e \<and> currentTest e \<le> getMaxValueForTest h pid"
  shows "below100 (calculateCompletition h e lid pid)"
proof -
  let ?L = "getMaxValueForLesson h (course e)"
  let ?P = "getMaxValueForPart h lid"
  let ?T = "getMaxValueForTest h pid"
  have Lpos: "0 < ?L" using L by simp
  have Tnn: "0 \<le> ?T" by (rule getMaxValueForTest_nonneg)
  have Pnn: "0 \<le> ?P" by (rule getMaxValueForPart_nonneg)
  show ?thesis
  proof (cases "?P = 0")
    case True
    with P0 have "currentPart e = 1" "currentTest e = 1" by simp_all
    with True tk Lpos Tnn show ?thesis
      by (simp add: calculateCompletition_def Let_def js_int_def below100_def)
  next
    case False
    with Pnn have Ppos: "0 < ?P" by simp
    show ?thesis
    proof (cases "?T = 0")
      case True
      with T0 have "currentTest e = 1" by simp
      with True tk Lpos Ppos show ?thesis
        by (simp add: calculateCompletition_def Let_def js_int_def below100_def)
    next
      case Tz: False
      let ?X = "(100 / of_int ?L * of_int (currentLesson e - 1) +
                 100 / of_int ?L / of_int ?P * of_int (currentPart e - 1) +
                 100 / of_int ?L / of_int ?P / of_int ?T * of_int (currentTest e - 1) :: rat)"
      have b: "0 \<le> ?X \<and> ?X < 100"
        using L P1 [OF False] T1 [OF Tz] by (intro odometer_bound) simp_all
      have "calculateCompletition h e lid pid = Num (min 100 ?X)"
        using tk Lpos Ppos Tz by (simp add: calculateCompletition_def Let_def js_int_def min_def)
      with b show ?thesis by (simp add: below100_def min_def)
    qed
  qed
qed

lemma calc_completed:
  "status e = COMPLETED \<Longrightarrow> calculateCompletition h e lid pid = Num 100"
  by (simp add: calculateCompletition_def Let_def)

lemma find_part_container: "findPartByLessonIdAndSeqNum h lid n = Some x \<Longrightarrow> lid \<noteq> None"
  by (cases lid) (simp_all add: findPartByLessonIdAndSeqNum_def)

lemma find_test_container: "findTestByPartIdAndSeqNum h pid n = Some x \<Longrightarrow> pid \<noteq> None"
  by (cases pid) (simp_all add: findTestByPartIdAndSeqNum_def)

lemma sound_advance:
  assumes s: "sound e" and c: "course e = c"
  shows "sound (advance h now c e)"
proof -
  let ?lid = "getLessonIdByCourseIdAndSeqNum h c (currentLesson e)"
  let ?pid = "getPartIdByLessonIdAndSeqNum h ?lid (currentPart e)"
  let ?nt = "findTestByPartIdAndSeqNum h ?pid (currentTest e + 1)"
  let ?np = "findPartByLessonIdAndSeqNum h ?lid (currentPart e + 1)"
  let ?nl = "findLessonByCourseIdAndSeqNum h c (currentLesson e + 1)"
  let ?e1 = "prepareCourseTakenUpdatedInfo now e ?nt ?np ?nl"
  have adv: "advance h now c e = ?e1\<lparr>completition := calculateCompletition h ?e1 ?lid ?pid\<rparr>"
    by (simp add: advance_def Let_def)
  have ptr: "1 \<le> currentLesson e" "1 \<le> currentPart e" "1 \<le> currentTest e"
    using s by (simp_all add: sound_def)
  have ptr1: "1 \<le> currentLesson ?e1" "1 \<le> currentPart ?e1" "1 \<le> currentTest ?e1"
    using ptr by (simp_all add: prepareCourseTakenUpdatedInfo_def)
  have c1: "course ?e1 = c" using c by (simp add: prepare_key)
  show ?thesis
  proof (cases "status ?e1")
    case COMPLETED
    then show ?thesis
      using ptr1 by (simp add: adv sound_def calc_completed)
  next
    case TAKEN
    then have tk: "status e = TAKEN"
      by (simp add: prepareCourseTakenUpdatedInfo_def split: if_splits)
    have lesson_of: "?lid \<noteq> None \<Longrightarrow> currentLesson e \<le> getMaxValueForLesson h c"
      by (auto simp: getLessonIdByCourseIdAndSeqNum_def dest: find_lesson_le_max)
    have part_of: "?pid \<noteq> None \<Longrightarrow> ?lid \<noteq> None \<and> currentPart e \<le> getMaxValueForPart h ?lid"
      by (auto simp: getPartIdByLessonIdAndSeqNum_def dest: find_part_le_max find_part_container)
    have "below100 (calculateCompletition h ?e1 ?lid ?pid)"
    proof (cases "?nt")
      case (Some x)
      then have t: "currentTest e + 1 \<le> getMaxValueForTest h ?pid" by (rule find_test_le_max)
      from Some have "?pid \<noteq> None" by (rule find_test_container)
      with part_of lesson_of
      have b: "currentPart e \<le> getMaxValueForPart h ?lid" "currentLesson e \<le> getMaxValueForLesson h c"
        by simp_all
      have e1: "currentLesson ?e1 = currentLesson e" "currentPart ?e1 = currentPart e"
        "currentTest ?e1 = currentTest e + 1"
        using Some by (simp_all add: prepareCourseTakenUpdatedInfo_def)
      show ?thesis
        using TAKEN ptr t b by (intro calc_below100) (simp_all add: e1 c1)
    next
      case None
      note nt = None
      show ?thesis
      proof (cases "?np")
        case (Some x)
        then have p: "currentPart e + 1 \<le> getMaxValueForPart h ?lid" by (rule find_part_le_max)
        from Some have "?lid \<noteq> None" by (rule find_part_container)
        with lesson_of have b: "currentLesson e \<le> getMaxValueForLesson h c" by simp
        have e1: "currentLesson ?e1 = currentLesson e" "currentPart ?e1 = currentPart e + 1"
          "currentTest ?e1 = 1"
          using nt Some by (simp_all add: prepareCourseTakenUpdatedInfo_def)
        have Tnn: "0 \<le> getMaxValueForTest h ?pid" by (rule getMaxValueForTest_nonneg)
        show ?thesis
          using TAKEN ptr p b Tnn by (intro calc_below100) (simp_all add: e1 c1)
      next
        case None
        note np = None
        show ?thesis
        proof (cases "?nl")
          case (Some x)
          then have l: "currentLesson e + 1 \<le> getMaxValueForLesson h c" by (rule find_lesson_le_max)
          have e1: "currentLesson ?e1 = currentLesson e + 1" "currentPart ?e1 = 1"
            "currentTest ?e1 = 1"
            using nt np Some by (simp_all add: prepareCourseTakenUpdatedInfo_def)
          have Tnn: "0 \<le> getMaxValueForTest h ?pid" by (rule getMaxValueForTest_nonneg)
          have Pnn: "0 \<le> getMaxValueForPart h ?lid" by (rule getMaxValueForPart_nonneg)
          show ?thesis
            using TAKEN ptr l Tnn Pnn by (intro calc_below100) (simp_all add: e1 c1)
        next
          case None
          with nt np have "status ?e1 = COMPLETED"
            by (simp add: prepareCourseTakenUpdatedInfo_def)
          with TAKEN show ?thesis by simp
        qed
      qed
    qed
    with TAKEN ptr1 show ?thesis by (simp add: adv sound_def)
  qed
qed

lemma all_sound_save:
  "\<forall>x \<in> set s. sound x \<Longrightarrow> sound e \<Longrightarrow> \<forall>x \<in> set (repository_save s e). sound x"
  using set_save [of s e] by auto

lemma findOne_in_set: "repository_findOne s u c = Some e \<Longrightarrow> e \<in> set s"
  by (auto simp: repository_findOne_def dest: find_SomeD)

lemma all_sound_step:
  assumes "\<forall>x \<in> set s. sound x" and f: "repository_findOne s u c = Some e"
  shows "\<forall>x \<in> set (repository_save s (advance h now c e)). sound x"
proof -
  have "sound e" using assms findOne_in_set by blast
  moreover have "course e = c" using f by (simp add: findOne_key)
  ultimately have "sound (advance h now c e)" by (rule sound_advance)
  with assms(1) show ?thesis by (rule all_sound_save)
qed

lemma all_sound_attendAClass:
  "\<forall>x \<in> set s. sound x \<Longrightarrow> \<forall>x \<in> set (snd (attendAClass h now s u c)). sound x"
proof (induction h now s u c rule: attendAClass_induct)
  case (missing h now s u c)
  then show ?case by (simp add: attendAClass_missing)
next
  case (resolved h now s u c e l p t)
  then show ?case by (simp add: attendAClass_resolved)
next
  case (completed h now s u c e)
  from all_sound_step [OF completed(4,1)] completed(1-3)
  show ?case by (simp add: attendAClass_unresolved)
next
  case (step h now s u c e)
  from all_sound_step [OF step(5,1)] step(1-4)
  show ?case by (simp add: attendAClass_unresolved)
qed

lemma all_sound_updateCourseStatus:
  assumes "\<forall>x \<in> set s. sound x"
  shows "\<forall>x \<in> set (snd (updateCourseStatus h now s u c)). sound x"
proof (cases "repository_findOne s u c")
  case None
  with assms show ?thesis
    by (simp add: updateCourseStatus_def findByUserIdAndCourseId_eq_findOne)
next
  case (Some e)
  from all_sound_step [OF assms Some] show ?thesis
    by (simp add: updateCourseStatus_eq [OF Some])
qed

lemma all_sound_add:
  assumes "\<forall>x \<in> set s. sound x"
  shows "\<forall>x \<in> set (snd (add h now s u c)). sound x"
proof (cases "repository_findByUserIdAndCourseId s u c")
  case (Some e)
  with assms show ?thesis by (simp add: add_def)
next
  case None
  let ?e = "(toEntity u c)\<lparr>currentLesson := 1, currentPart := 1, currentTest := 1, status := TAKEN,
                  courseStartDate := now\<rparr>"
  have "sound ?e" by (simp add: sound_def toEntity_def below100_def)
  with assms have "\<forall>x \<in> set (repository_save s ?e). sound x" by (rule all_sound_save)
  then have "\<forall>x \<in> set (snd (attendAClass h now (repository_save s ?e) u c)). sound x"
    by (rule all_sound_attendAClass)
  with None show ?thesis by (simp add: add_def)
qed

lemma progressed_sound: "progressed s \<Longrightarrow> \<forall>x \<in> set s. sound x"
proof (induction rule: progressed.induct)
  case nobody
  then show ?case by simp
next
  case (enroll s h now u c)
  then show ?case by (intro all_sound_add)
next
  case (attend s h now u c)
  then show ?case by (intro all_sound_attendAClass)
next
  case (advance s h now u c)
  then show ?case by (intro all_sound_updateCourseStatus)
next
  case (unenroll s u c)
  then show ?case by (simp add: delete_def repository_delete_def)
qed

lemma advance_keeps_completed:
  "status e = COMPLETED \<Longrightarrow>
   status (advance h now c e) = COMPLETED \<and> completition (advance h now c e) = Num 100"
  by (simp add: advance_def Let_def prepareCourseTakenUpdatedInfo_def calc_completed)

lemma advance_completed_100:
  "status (advance h now c e) = COMPLETED \<Longrightarrow> completition (advance h now c e) = Num 100"
  by (simp add: advance_def Let_def calc_completed)

lemma findOne_after_step:
  "repository_findOne s u c = Some e \<Longrightarrow>
   repository_findOne (repository_save s (advance h now c e)) u c = Some (advance h now c e)"
  using findOne_save_same [of s "advance h now c e"] findOne_key [of s u c e]
  by (simp add: advance_key)

lemma attendAClass_settles:
  "repository_findOne s u c \<noteq> None \<Longrightarrow>
   \<exists>d e'. fst (attendAClass h now s u c) = Inr d \<and>
          repository_findOne (snd (attendAClass h now s u c)) u c = Some e' \<and>
          dto_completition d = completition e' \<and> dto_status d = status e' \<and> settled h c e'"
proof (induction h now s u c rule: attendAClass_induct)
  case (missing h now s u c)
  then show ?case by simp
next
  case (resolved h now s u c e l p t)
  then show ?case
    by (simp add: attendAClass_resolved prepareAttendAClassDTO_def settled_def)
next
  case (completed h now s u c e)
  then show ?case
    by (simp add: attendAClass_unresolved prepareAttendAClassDTO_def settled_def
        findOne_after_step advance_completed_100)
next
  case (step h now s u c e)
  then show ?case
    by (simp add: attendAClass_unresolved findOne_after_step)
qed

lemma attendAClass_of_settled:
  assumes f: "repository_findOne s u c = Some e" and st: "settled h c e"
  shows "\<exists>d e'. fst (attendAClass h now s u c) = Inr d \<and>
           dto_completition d = completition e \<and> dto_status d = status e \<and>
           repository_findOne (snd (attendAClass h now s u c)) u c = Some e' \<and>
           completition e' = completition e \<and> status e' = status e \<and> settled h c e'"
proof (cases "resolve h c e")
  case (Some lpt)
  obtain l p t where "lpt = (l, p, t)" by (cases lpt)
  with Some f st show ?thesis
    by (simp add: attendAClass_resolved prepareAttendAClassDTO_def)
next
  case None
  with st have fin: "status e = COMPLETED" "completition e = Num 100"
    by (simp_all add: settled_def)
  from advance_keeps_completed [OF fin(1), of h now c]
  show ?thesis
    using fin by (simp add: attendAClass_unresolved [OF f None] prepareAttendAClassDTO_def
        findOne_after_step [OF f] settled_def)
qed

lemma attendRepeatedly_of_settled:
  "repository_findOne s u c = Some e \<Longrightarrow> settled h c e \<Longrightarrow>
   \<exists>ds. attendRepeatedly h nows s u c = map Inr ds \<and>
        (\<forall>d \<in> set ds. dto_completition d = completition e \<and> dto_status d = status e)"
proof (induction nows arbitrary: s e)
  case Nil
  then show ?case by simp
next
  case (Cons now nows)
  from attendAClass_of_settled [OF Cons.prems, of now]
  obtain d e' where d: "fst (attendAClass h now s u c) = Inr d"
    "dto_completition d = completition e" "dto_status d = status e"
    and e': "repository_findOne (snd (attendAClass h now s u c)) u c = Some e'"
    "completition e' = completition e" "status e' = status e" "settled h c e'"
    by blast
  from Cons.IH [OF e'(1) e'(4)]
  obtain ds where ds: "attendRepeatedly h nows (snd (attendAClass h now s u c)) u c = map Inr ds"
    "\<forall>d \<in> set ds. dto_completition d = completition e' \<and> dto_status d = status e'"
    by blast
  have "attendRepeatedly h (now # nows) s u c = map Inr (d # ds)"
    by (simp add: d ds)
  moreover have "\<forall>x \<in> set (d # ds). dto_completition x = completition e \<and> dto_status x = status e"
    using d ds e' by simp
  ultimately show ?case by blast
qed

lemma js_lt_irrefl: "\<not> js_lt x x"
  by (cases x) (simp_all add: js_lt_def)

lemma sound_100_iff: "sound e \<Longrightarrow> completition e = Num 100 \<longleftrightarrow> status e = COMPLETED"
  by (cases "status e") (auto simp: sound_def below100_def split: number.splits)

text \<open>
  Claim C5, amended. Take an enrollment in a store that \<^verbatim>\<open>add\<close>, \<^verbatim>\<open>attendAClass\<close>,
  \<^verbatim>\<open>updateCourseStatus\<close> and \<^verbatim>\<open>delete\<close> have produced, and call \<^verbatim>\<open>attendAClass\<close> on it any
  number of times in one catalogue. Every call returns a snapshot; in each the
  completion is exactly 100 if and only if the status is COMPLETED; and a later
  snapshot's completion is never less than an earlier one's (it is the same value).
\<close>

theorem attendAClass_completion_never_decreases:
  assumes p: "progressed s" and f: "repository_findOne s u c \<noteq> None"
  shows "\<exists>ds. attendRepeatedly h nows s u c = map Inr ds \<and>
           (\<forall>d \<in> set ds. dto_completition d = Num 100 \<longleftrightarrow> dto_status d = COMPLETED) \<and>
           (\<forall>i j. i \<le> j \<and> j < length ds \<longrightarrow>
                  dto_completition (ds ! j) = dto_completition (ds ! i) \<and>
                  \<not> js_lt (dto_completition (ds ! j)) (dto_completition (ds ! i)))"
proof (cases nows)
  case Nil
  then show ?thesis by simp
next
  case (Cons now rest)
  let ?s' = "snd (attendAClass h now s u c)"
  from attendAClass_settles [OF f, of h now]
  obtain d e' where d: "fst (attendAClass h now s u c) = Inr d"
    and e': "repository_findOne ?s' u c = Some e'"
    and de: "dto_completition d = completition e'" "dto_status d = status e'"
    and st: "settled h c e'"
    by blast
  from attendRepeatedly_of_settled [OF e' st, of rest]
  obtain ds where ds: "attendRepeatedly h rest ?s' u c = map Inr ds"
    "\<forall>x \<in> set ds. dto_completition x = completition e' \<and> dto_status x = status e'"
    by blast
  have "progressed ?s'" using p by (rule progressed.attend)
  then have "sound e'" using progressed_sound findOne_in_set [OF e'] by blast
  then have iff: "completition e' = Num 100 \<longleftrightarrow> status e' = COMPLETED" by (rule sound_100_iff)
  have all: "\<forall>x \<in> set (d # ds). dto_completition x = completition e' \<and> dto_status x = status e'"
    using de ds(2) by simp
  have 1: "attendRepeatedly h nows s u c = map Inr (d # ds)"
    by (simp add: Cons d ds)
  have 2: "\<forall>x \<in> set (d # ds). dto_completition x = Num 100 \<longleftrightarrow> dto_status x = COMPLETED"
    using all iff by simp
  have 3: "\<forall>i j. i \<le> j \<and> j < length (d # ds) \<longrightarrow>
             dto_completition ((d # ds) ! j) = dto_completition ((d # ds) ! i) \<and>
             \<not> js_lt (dto_completition ((d # ds) ! j)) (dto_completition ((d # ds) ! i))"
  proof (intro allI impI)
    fix i j
    assume "i \<le> j \<and> j < length (d # ds)"
    then have "(d # ds) ! i \<in> set (d # ds)" "(d # ds) ! j \<in> set (d # ds)"
      by (simp_all del: set_simps nth_Cons)
    with all have "dto_completition ((d # ds) ! j) = dto_completition ((d # ds) ! i)"
      by (metis (no_types))
    then show "dto_completition ((d # ds) ! j) = dto_completition ((d # ds) ! i) \<and>
               \<not> js_lt (dto_completition ((d # ds) ! j)) (dto_completition ((d # ds) ! i))"
      by (simp add: js_lt_irrefl)
  qed
  from 1 2 3 show ?thesis by blast
qed

theorem attendAClass_completion_never_decreases_witness:
  "\<exists>ds. attendRepeatedly two_by_two [7, 8]
          (snd (updateCourseStatus two_by_two 6 (snd (add two_by_two 5 [] ''u'' ''c'')) ''u'' ''c''))
          ''u'' ''c'' = map Inr ds \<and>
        length ds = 2 \<and>
        (dto_completition (ds ! 0) = Num 100) = (dto_status (ds ! 0) = COMPLETED) \<and>
        dto_completition (ds ! 1) = dto_completition (ds ! 0) \<and>
        \<not> js_lt (dto_completition (ds ! 1)) (dto_completition (ds ! 0))"
proof -
  let ?s = "snd (updateCourseStatus two_by_two 6 (snd (add two_by_two 5 [] ''u'' ''c'')) ''u'' ''c'')"
  have p: "progressed ?s"
    by (rule progressed.advance, rule progressed.enroll, rule progressed.nobody)
  have f: "repository_findOne ?s ''u'' ''c'' \<noteq> None"
    by (simp add: service_defs store_defs lookup_defs attendAClass.simps two_by_two_def)
  from attendAClass_completion_never_decreases [OF p f, of two_by_two "[7, 8]"]
  obtain ds where a: "attendRepeatedly two_by_two [7, 8] ?s ''u'' ''c'' = map Inr ds"
    and b: "\<forall>d \<in> set ds. dto_completition d = Num 100 \<longleftrightarrow> dto_status d = COMPLETED"
    and c: "\<forall>i j. i \<le> j \<and> j < length ds \<longrightarrow>
                  dto_completition (ds ! j) = dto_completition (ds ! i) \<and>
                  \<not> js_lt (dto_completition (ds ! j)) (dto_completition (ds ! i))"
    by blast
  have "length (attendRepeatedly two_by_two [7, 8] ?s ''u'' ''c'') = 2" by simp
  with a have l: "length ds = 2" by simp
  then have "ds ! 0 \<in> set ds" by simp
  with b have b0: "(dto_completition (ds ! 0) = Num 100) = (dto_status (ds ! 0) = COMPLETED)" by blast
  have "(0::nat) \<le> 1 \<and> 1 < length ds" using l by simp
  then have c01: "dto_completition (ds ! 1) = dto_completition (ds ! 0) \<and>
      \<not> js_lt (dto_completition (ds ! 1)) (dto_completition (ds ! 0))"
    by (rule c [rule_format, of 0 1])
  from a l b0 c01 [THEN conjunct1] c01 [THEN conjunct2] show ?thesis
    by (intro exI [of _ ds] conjI)
qed

text \<open>
  Claim C5, as stated for every enrollment, fails: \<^verbatim>\<open>update\<close> stores whatever completion
  its caller supplies. After an update to 100 of an enrollment that is still TAKEN,
  \<^verbatim>\<open>attendAClass\<close> returns completion 100 with status TAKEN.
\<close>

theorem update_breaks_completion_status_link:
  "snd (add two_lessons 5 [] ''u'' ''c'') = [enrolled 1 1 1] \<and>
   snd (update [enrolled 1 1 1] ''u'' ''c'' (only_completition (Num 100))) =
     [(enrolled 1 1 1)\<lparr>completition := Num 100\<rparr>] \<and>
   attendRepeatedly two_lessons [6] [(enrolled 1 1 1)\<lparr>completition := Num 100\<rparr>] ''u'' ''c'' =
     [Inr \<lparr>dto_user = ''u'', dto_course = ''c'',
           dto_currentLesson = Some \<lparr>lesson_id = ''l1'', lesson_course = ''c'', lesson_seq = 1\<rparr>,
           dto_currentPart = Some \<lparr>part_id = ''p1'', part_lesson = ''l1'', part_seq = 1\<rparr>,
           dto_currentTest = Some \<lparr>test_id = ''t1'', test_part = ''p1'', test_seq = 1\<rparr>,
           dto_completition = Num 100, dto_status = TAKEN\<rparr>]"
  by (simp add: service_defs store_defs lookup_defs attendAClass.simps two_lessons_def
      enrolled_def only_completition_def)

end
